theory Spec2Isabelle
  imports Complex_Main "HOL-Library.AList" "HOL-Library.Sublist" "HOL-Library.Multiset"
    "HOL-Library.List_Lexorder" "HOL-Library.Log_Nat"
begin

section \<open>JavaScript values and documents\<close>

text \<open>
  A JavaScript number is a double. The model keeps the three non-finite values apart and
  represents a finite double by the rational it denotes. The two zeros are one value, as
  they are for \<open>===\<close>, for truthiness and for the keys of a \<open>Map\<close>.
\<close>

datatype jsnum = NaN | PosInf | NegInf | Fin rat

text \<open>
  The double nearest to a rational, ties to the even significand (IEEE 754 binary64,
  round to nearest): 53 significant bits, the least exponent \<open>-1022\<close> with gradual
  underflow below it, and overflow to infinity from \<open>2^1024 - 2^970\<close> on. Every
  arithmetic operation on doubles is the exact operation followed by this rounding.
\<close>

definition pow2 :: "int \<Rightarrow> rat" where
  "pow2 k = (if k \<ge> 0 then 2 ^ nat k else 1 / 2 ^ nat (- k))"

definition roundHalfEven :: "rat \<Rightarrow> int" where
  "roundHalfEven x =
     (let f = \<lfloor>x\<rfloor>; r = x - of_int f
      in if r < 1 / 2 then f else if r > 1 / 2 then f + 1 else if even f then f else f + 1)"

text \<open>For \<open>x > 0\<close>, the \<open>e\<close> with \<open>2^e \<le> x < 2^(e+1)\<close>.\<close>

definition binaryExponent :: "rat \<Rightarrow> int" where
  "binaryExponent x =
     (let k = bitlen (fst (quotient_of x)) - bitlen (snd (quotient_of x))
      in if pow2 k \<le> x then k else k - 1)"

definition roundToDouble :: "rat \<Rightarrow> jsnum" where
  "roundToDouble x =
     (if x = 0 then Fin 0
      else
        (let a = \<bar>x\<bar>;
             e = max (binaryExponent a) (- 1022);
             quantum = pow2 (e - 52);
             n = roundHalfEven (a / quantum)
         in if e > 1023 \<or> (e = 1023 \<and> n \<ge> 2 ^ 53)
            then (if x < 0 then NegInf else PosInf)
            else Fin (if x < 0 then - (of_int n * quantum) else of_int n * quantum)))"

datatype jsval =
    JUndefined
  | JNull
  | JNum jsnum
  | JStr string
  | JBool bool
  | JDate nat
  | JOid nat

text \<open>
  An object (a decoded game, a stored document, a run result) is an association list from
  property names to values, in insertion order. Reading a missing property gives
  \<open>undefined\<close>.
\<close>

type_synonym doc = "(string \<times> jsval) list"

definition get :: "doc \<Rightarrow> string \<Rightarrow> jsval" where
  "get d k = (case map_of d k of None \<Rightarrow> JUndefined | Some v \<Rightarrow> v)"

fun truthy :: "jsval \<Rightarrow> bool" where
  "truthy JUndefined = False"
| "truthy JNull = False"
| "truthy (JNum NaN) = False"
| "truthy (JNum PosInf) = True"
| "truthy (JNum NegInf) = True"
| "truthy (JNum (Fin x)) = (x \<noteq> 0)"
| "truthy (JStr s) = (s \<noteq> [])"
| "truthy (JBool b) = b"
| "truthy (JDate t) = True"
| "truthy (JOid n) = True"

text \<open>
  \<open>a === b\<close>. A number is never strictly equal to \<open>NaN\<close>. Dates and object
  identifiers are objects, compared by reference; the two operands of every comparison in
  this program come from two different objects, so for them the result is false.
\<close>

fun strict_eq :: "jsval \<Rightarrow> jsval \<Rightarrow> bool" where
  "strict_eq (JNum a) (JNum b) = (a \<noteq> NaN \<and> b \<noteq> NaN \<and> a = b)"
| "strict_eq (JDate a) v = False"
| "strict_eq (JOid a) v = False"
| "strict_eq u v = (u = v)"

text \<open>
  Subtraction, \<open>Math.abs\<close> and \<open>>\<close> on numbers, with the non-finite cases. The
  difference of two finite doubles is the double nearest to their exact difference.
\<close>

fun num_sub :: "jsnum \<Rightarrow> jsnum \<Rightarrow> jsnum" where
  "num_sub NaN b = NaN"
| "num_sub a NaN = NaN"
| "num_sub PosInf PosInf = NaN"
| "num_sub NegInf NegInf = NaN"
| "num_sub PosInf b = PosInf"
| "num_sub NegInf b = NegInf"
| "num_sub (Fin x) PosInf = NegInf"
| "num_sub (Fin x) NegInf = PosInf"
| "num_sub (Fin x) (Fin y) = roundToDouble (x - y)"

fun num_abs :: "jsnum \<Rightarrow> jsnum" where
  "num_abs NaN = NaN"
| "num_abs PosInf = PosInf"
| "num_abs NegInf = PosInf"
| "num_abs (Fin x) = Fin \<bar>x\<bar>"

fun num_gt :: "jsnum \<Rightarrow> jsnum \<Rightarrow> bool" where
  "num_gt NaN b = False"
| "num_gt a NaN = False"
| "num_gt PosInf PosInf = False"
| "num_gt PosInf b = True"
| "num_gt NegInf b = False"
| "num_gt (Fin x) PosInf = False"
| "num_gt (Fin x) NegInf = True"
| "num_gt (Fin x) (Fin y) = (x > y)"

section \<open>The built-ins \<open>parseInt\<close> and \<open>parseFloat\<close>\<close>

text \<open>
  Both follow ECMAScript on strings of ASCII characters: leading white space is skipped,
  the longest prefix that is a numeral is read, and the rest of the string is ignored.
  \<open>parseFloat\<close> returns the double nearest to the value of the decimal numeral, with
  overflow to \<open>Infinity\<close>. \<open>parseInt\<close> returns the value of the integer numeral;
  the rounding of integers beyond \<open>2^53\<close> is not modelled. An argument that is
  \<open>undefined\<close> is read as the string \<open>undefined\<close>, which has no numeral prefix.
\<close>

definition isStrWhiteSpaceChar :: "char \<Rightarrow> bool" where
  "isStrWhiteSpaceChar c =
     (c = CHR 0x09 \<or> c = CHR 0x0A \<or> c = CHR 0x0B \<or> c = CHR 0x0C \<or> c = CHR 0x0D \<or> c = CHR '' '')"

definition decDigit :: "char \<Rightarrow> nat option" where
  "decDigit c =
     (let n = (of_char c :: nat) in if 48 \<le> n \<and> n \<le> 57 then Some (n - 48) else None)"

definition hexDigit :: "char \<Rightarrow> nat option" where
  "hexDigit c =
     (let n = (of_char c :: nat) in
      if 48 \<le> n \<and> n \<le> 57 then Some (n - 48)
      else if 97 \<le> n \<and> n \<le> 102 then Some (n - 87)
      else if 65 \<le> n \<and> n \<le> 70 then Some (n - 55)
      else None)"

fun takeDigits :: "(char \<Rightarrow> nat option) \<Rightarrow> string \<Rightarrow> nat list" where
  "takeDigits dv [] = []"
| "takeDigits dv (c # cs) = (case dv c of None \<Rightarrow> [] | Some d \<Rightarrow> d # takeDigits dv cs)"

definition digitsValue :: "int \<Rightarrow> nat list \<Rightarrow> int" where
  "digitsValue radix ds = foldl (\<lambda>acc d. acc * radix + int d) 0 ds"

definition parseIntStr :: "string \<Rightarrow> jsnum" where
  "parseIntStr inputString =
     (let S = dropWhile isStrWhiteSpaceChar inputString;
          sign = (if take 1 S = ''-'' then - 1 else 1 :: int);
          S1 = (if take 1 S = ''+'' \<or> take 1 S = ''-'' then drop 1 S else S);
          hex = (take 2 S1 = ''0x'' \<or> take 2 S1 = ''0X'');
          S2 = (if hex then drop 2 S1 else S1);
          Z = takeDigits (if hex then hexDigit else decDigit) S2
      in if Z = [] then NaN
         else Fin (of_int (sign * digitsValue (if hex then 16 else 10) Z)))"

definition parseInt :: "string option \<Rightarrow> jsnum" where
  "parseInt v = (case v of None \<Rightarrow> parseIntStr ''undefined'' | Some s \<Rightarrow> parseIntStr s)"

definition parseFloatStr :: "string \<Rightarrow> jsnum" where
  "parseFloatStr inputString =
     (let S = dropWhile isStrWhiteSpaceChar inputString;
          neg = (take 1 S = ''-'');
          S1 = (if take 1 S = ''+'' \<or> take 1 S = ''-'' then drop 1 S else S)
      in if prefix ''Infinity'' S1 then (if neg then NegInf else PosInf)
         else
           (let ip = takeDigits decDigit S1;
                R1 = drop (length ip) S1;
                fp = (if take 1 R1 = ''.'' then takeDigits decDigit (drop 1 R1) else []);
                R2 = (if take 1 R1 = ''.'' then drop (Suc (length fp)) R1 else R1)
            in if ip = [] \<and> fp = [] then NaN
               else
                 (let mantissa = (of_int (digitsValue 10 (ip @ fp)) :: rat) / 10 ^ length fp;
                      E1 = drop 1 R2;
                      eneg = (take 1 E1 = ''-'');
                      E2 = (if take 1 E1 = ''+'' \<or> take 1 E1 = ''-'' then drop 1 E1 else E1);
                      ed = (if take 1 R2 = ''e'' \<or> take 1 R2 = ''E''
                            then takeDigits decDigit E2 else []);
                      exponent = nat (digitsValue 10 ed);
                      scaled = (if eneg then mantissa / 10 ^ exponent
                                else mantissa * 10 ^ exponent)
                  in roundToDouble (if neg then - scaled else scaled))))"

definition parseFloat :: "string option \<Rightarrow> jsnum" where
  "parseFloat v = (case v of None \<Rightarrow> parseFloatStr ''undefined'' | Some s \<Rightarrow> parseFloatStr s)"

section \<open>The row decoder\<close>

text \<open>
  A row of the CSV parser is an object whose properties are the header names and whose
  values are strings; a column the row does not have is a missing property.
\<close>

type_synonym row = "(string \<times> string) list"

definition rowStr :: "row \<Rightarrow> string \<Rightarrow> jsval" where
  "rowStr r k = (case map_of r k of None \<Rightarrow> JUndefined | Some s \<Rightarrow> JStr s)"

text \<open>
  The object literal of the \<open>data\<close> handler. \<open>row.is_expansion === 1\<close> is false for
  every row, a row's values being strings.
\<close>

definition gameDocOfRow :: "row \<Rightarrow> doc" where
  "gameDocOfRow r =
     [(''id'', JNum (parseInt (map_of r ''id''))),
      (''name'', rowStr r ''name''),
      (''year_published'', JNum (parseInt (map_of r ''yearpublished''))),
      (''rank'', JNum (parseInt (map_of r ''rank''))),
      (''bayes_average'', JNum (parseFloat (map_of r ''bayesaverage''))),
      (''average'', JNum (parseFloat (map_of r ''average''))),
      (''users_rated'', JNum (parseInt (map_of r ''usersrated''))),
      (''is_expansion'', JBool (rowStr r ''is_expansion'' = JStr ''1'')),
      (''abstracts_rank'',
         (if truthy (rowStr r ''abstracts_rank'')
          then JNum (parseInt (map_of r ''abstracts_rank'')) else JUndefined))]"

text \<open>The clean-up loop deletes the properties that are undefined, null or \<open>NaN\<close>.\<close>

definition isDeleted :: "jsval \<Rightarrow> bool" where
  "isDeleted v = (v = JUndefined \<or> v = JNull \<or> v = JNum NaN)"

definition cleanUp :: "doc \<Rightarrow> doc" where
  "cleanUp d = filter (\<lambda>kv. \<not> isDeleted (snd kv)) d"

text \<open>
  The \<open>data\<close> handler: \<open>Some\<close> the record pushed onto \<open>allRecords\<close>, \<open>None\<close>
  when the row is not pushed. Nothing in the handler throws, so its \<open>catch\<close> is never
  entered.
\<close>

definition rowHandler :: "row \<Rightarrow> doc option" where
  "rowHandler r =
     (let gameDoc = cleanUp (gameDocOfRow r)
      in if truthy (get gameDoc ''name'') \<and> truthy (get gameDoc ''id'')
         then Some gameDoc else None)"

definition collectRecords :: "row list \<Rightarrow> doc list" where
  "collectRecords rows = List.map_filter rowHandler rows"

section \<open>The differ\<close>

definition fieldsToCompare :: "string list" where
  "fieldsToCompare =
     [''name'', ''year_published'', ''rank'', ''bayes_average'',
      ''average'', ''users_rated'', ''is_expansion'', ''abstracts_rank'']"

text \<open>The literal \<open>0.001\<close>: the double nearest to one thousandth.\<close>

definition tolerance :: jsnum where
  "tolerance = roundToDouble (1 / 1000)"

definition isNumber :: "jsval \<Rightarrow> bool" where
  "isNumber v = (case v of JNum n \<Rightarrow> True | _ \<Rightarrow> False)"

definition numOf :: "jsval \<Rightarrow> jsnum" where
  "numOf v = (case v of JNum n \<Rightarrow> n | _ \<Rightarrow> NaN)"

text \<open>
  The loop of \<open>hasGameDataChanged\<close> over a list of fields: \<open>True\<close> is the
  \<open>return true\<close> inside the loop, the recursive call is \<open>continue\<close> or the end of the
  loop body.
\<close>

fun compareFields :: "string list \<Rightarrow> doc \<Rightarrow> doc \<Rightarrow> bool" where
  "compareFields [] newGame existingGame = False"
| "compareFields (field # rest) newGame existingGame =
     (let newValue = get newGame field;
          existingValue = get existingGame field
      in if \<not> strict_eq newValue existingValue then
           (if isNumber newValue \<and> isNumber existingValue then
              (if numOf newValue = NaN \<and> numOf existingValue = NaN
               then compareFields rest newGame existingGame
               else if num_gt (num_abs (num_sub (numOf newValue) (numOf existingValue)))
                              tolerance
               then True
               else compareFields rest newGame existingGame)
            else True)
         else compareFields rest newGame existingGame)"

definition hasGameDataChanged :: "doc \<Rightarrow> doc \<Rightarrow> bool" where
  "hasGameDataChanged newGame existingGame = compareFields fieldsToCompare newGame existingGame"

text \<open>
  \<open>existingGamesMap\<close>: a \<open>Map\<close> filled by \<open>set(game.id, game)\<close> for each stored
  document in turn, so that the last document with an id is the one kept.
\<close>

type_synonym gamesMap = "(jsval \<times> doc) list"

definition buildExistingGamesMap :: "doc list \<Rightarrow> gamesMap" where
  "buildExistingGamesMap existingGames =
     fold (\<lambda>game m. AList.update (get game ''id'') game m) existingGames []"

record changes =
  newGames :: "doc list"
  updatedGames :: "doc list"
  unchangedCount :: nat

fun analyzeLoop :: "doc list \<Rightarrow> gamesMap \<Rightarrow> changes \<Rightarrow> changes" where
  "analyzeLoop [] m acc = acc"
| "analyzeLoop (newGame # rest) m acc =
     (case map_of m (get newGame ''id'') of
        None \<Rightarrow> analyzeLoop rest m (acc\<lparr>newGames := newGames acc @ [newGame]\<rparr>)
      | Some existingGame \<Rightarrow>
          (if hasGameDataChanged newGame existingGame
           then analyzeLoop rest m (acc\<lparr>updatedGames := updatedGames acc @ [newGame]\<rparr>)
           else analyzeLoop rest m (acc\<lparr>unchangedCount := unchangedCount acc + 1\<rparr>)))"

definition analyzeChanges :: "doc list \<Rightarrow> gamesMap \<Rightarrow> changes" where
  "analyzeChanges newRecords existingGamesMap =
     analyzeLoop newRecords existingGamesMap
       \<lparr>newGames = [], updatedGames = [], unchangedCount = 0\<rparr>"

section \<open>The store\<close>

text \<open>
  The database is an external collaborator. Its state is the list of documents of each
  collection, in natural (insertion) order. Every call the program makes to it is
  recorded, and whether a call succeeds is decided by a schedule of outcomes, one per call
  in the order of the calls; when the schedule is used up, calls succeed. \<open>Fails k\<close> is
  a failure; for an ordered bulk operation the first \<open>k\<close> operations had been applied
  when it failed.
\<close>

datatype call =
    CreateIndexes
  | GetCollection string
  | ReadStream string
  | Find string
  | EnsureConnection
  | BulkWrite string nat
  | InsertMany string nat
  | DeleteMany string
  | Drop string

datatype outcome = Succeeds | Fails nat

datatype error = UnsupportedFile | StreamError | CallFailed call

record store =
  collections :: "(string \<times> doc list) list"
  nextOid :: nat
  outcomes :: "outcome list"
  calls :: "call list"

definition docsOf :: "store \<Rightarrow> string \<Rightarrow> doc list" where
  "docsOf st name = (case map_of (collections st) name of None \<Rightarrow> [] | Some ds \<Rightarrow> ds)"

definition perform :: "call \<Rightarrow> store \<Rightarrow> outcome \<times> store" where
  "perform c st =
     ((case outcomes st of [] \<Rightarrow> Succeeds | out # rest \<Rightarrow> out),
      st\<lparr>outcomes := tl (outcomes st), calls := calls st @ [c]\<rparr>)"

text \<open>Sequencing of calls that may throw, and \<open>try\<close>/\<open>catch\<close>.\<close>

definition andThen ::
  "(store \<Rightarrow> (error + 'a) \<times> store) \<Rightarrow> ('a \<Rightarrow> store \<Rightarrow> (error + 'b) \<times> store)
     \<Rightarrow> store \<Rightarrow> (error + 'b) \<times> store" where
  "andThen m f st = (case m st of (Inl e, st1) \<Rightarrow> (Inl e, st1) | (Inr x, st1) \<Rightarrow> f x st1)"

definition tryCatch ::
  "(store \<Rightarrow> (error + 'a) \<times> store) \<Rightarrow> (error \<Rightarrow> store \<Rightarrow> (error + 'a) \<times> store)
     \<Rightarrow> store \<Rightarrow> (error + 'a) \<times> store" where
  "tryCatch m h st = (case m st of (Inl e, st1) \<Rightarrow> h e st1 | (Inr x, st1) \<Rightarrow> (Inr x, st1))"

definition returns :: "'a \<Rightarrow> store \<Rightarrow> (error + 'a) \<times> store" where
  "returns x st = (Inr x, st)"

definition simpleCall :: "call \<Rightarrow> store \<Rightarrow> (error + unit) \<times> store" where
  "simpleCall c st =
     (case perform c st of
        (Succeeds, st1) \<Rightarrow> (Inr (), st1)
      | (Fails k, st1) \<Rightarrow> (Inl (CallFailed c), st1))"

text \<open>
  \<open>Database.createIndexes\<close> is called by the processor but is not among the sources;
  creating indexes leaves the documents of every collection as they are.
  \<open>getCollection\<close> throws when the database is not connected, \<open>ensureConnection\<close>
  when the ping and the reconnection both fail.
\<close>

definition createIndexes :: "store \<Rightarrow> (error + unit) \<times> store" where
  "createIndexes = simpleCall CreateIndexes"

definition getCollection :: "string \<Rightarrow> store \<Rightarrow> (error + unit) \<times> store" where
  "getCollection name = simpleCall (GetCollection name)"

definition ensureConnection :: "store \<Rightarrow> (error + unit) \<times> store" where
  "ensureConnection = simpleCall EnsureConnection"

definition find :: "string \<Rightarrow> store \<Rightarrow> (error + doc list) \<times> store" where
  "find name st =
     (case perform (Find name) st of
        (Succeeds, st1) \<Rightarrow> (Inr (docsOf st1 name), st1)
      | (Fails k, st1) \<Rightarrow> (Inl (CallFailed (Find name)), st1))"

definition deleteMany :: "string \<Rightarrow> store \<Rightarrow> (error + unit) \<times> store" where
  "deleteMany name st =
     (case perform (DeleteMany name) st of
        (Succeeds, st1) \<Rightarrow> (Inr (), st1\<lparr>collections := AList.update name [] (collections st1)\<rparr>)
      | (Fails k, st1) \<Rightarrow> (Inl (CallFailed (DeleteMany name)), st1))"

definition drop_collection :: "string \<Rightarrow> store \<Rightarrow> (error + unit) \<times> store" where
  "drop_collection name st =
     (case perform (Drop name) st of
        (Succeeds, st1) \<Rightarrow> (Inr (), st1\<lparr>collections := AList.delete name (collections st1)\<rparr>)
      | (Fails k, st1) \<Rightarrow> (Inl (CallFailed (Drop name)), st1))"

text \<open>
  \<open>insertMany\<close>, ordered: the documents are appended in turn; a document without
  \<open>_id\<close> is given a fresh one.
\<close>

definition withId :: "nat \<Rightarrow> doc \<Rightarrow> doc" where
  "withId oid d = (if map_of d ''_id'' = None then (''_id'', JOid oid) # d else d)"

fun insertDocs :: "doc list \<Rightarrow> doc list \<times> nat \<Rightarrow> doc list \<times> nat" where
  "insertDocs [] (ds, oid) = (ds, oid)"
| "insertDocs (d # rest) (ds, oid) = insertDocs rest (ds @ [withId oid d], Suc oid)"

definition applyInsert :: "string \<Rightarrow> doc list \<Rightarrow> store \<Rightarrow> store" where
  "applyInsert name docs st =
     (let r = insertDocs docs (docsOf st name, nextOid st)
      in st\<lparr>collections := AList.update name (fst r) (collections st), nextOid := snd r\<rparr>)"

definition insertMany :: "string \<Rightarrow> doc list \<Rightarrow> store \<Rightarrow> (error + unit) \<times> store" where
  "insertMany name docs st =
     (case perform (InsertMany name (length docs)) st of
        (Succeeds, st1) \<Rightarrow> (Inr (), applyInsert name docs st1)
      | (Fails k, st1) \<Rightarrow>
          (Inl (CallFailed (InsertMany name (length docs))), applyInsert name (take k docs) st1))"

text \<open>
  One operation of a bulk write,
  \<open>{ updateOne: { filter: { id }, update: { $set, $setOnInsert }, upsert: true } }\<close>.
  The first document whose \<open>id\<close> equals the filter's is updated with the \<open>$set\<close>
  fields. When there is none, a document is inserted, made of a fresh \<open>_id\<close>, the
  filter's \<open>id\<close>, the \<open>$set\<close> fields and the \<open>$setOnInsert\<close> fields.
\<close>

record updateOneOp =
  filterId :: jsval
  setFields :: doc
  setOnInsertFields :: doc

definition applyFields :: "doc \<Rightarrow> doc \<Rightarrow> doc" where
  "applyFields fs d = fold (\<lambda>kv acc. AList.update (fst kv) (snd kv) acc) fs d"

fun updateOne :: "updateOneOp \<Rightarrow> nat \<Rightarrow> doc list \<Rightarrow> doc list" where
  "updateOne op oid [] =
     [applyFields (setOnInsertFields op)
        (applyFields (setFields op) [(''_id'', JOid oid), (''id'', filterId op)])]"
| "updateOne op oid (d # ds) =
     (if get d ''id'' = filterId op then applyFields (setFields op) d # ds
      else d # updateOne op oid ds)"

fun applyOps :: "updateOneOp list \<Rightarrow> doc list \<times> nat \<Rightarrow> doc list \<times> nat" where
  "applyOps [] (ds, oid) = (ds, oid)"
| "applyOps (op # rest) (ds, oid) = applyOps rest (updateOne op oid ds, Suc oid)"

definition applyBulk :: "string \<Rightarrow> updateOneOp list \<Rightarrow> store \<Rightarrow> store" where
  "applyBulk name ops st =
     (let r = applyOps ops (docsOf st name, nextOid st)
      in st\<lparr>collections := AList.update name (fst r) (collections st), nextOid := snd r\<rparr>)"

definition bulkWrite :: "string \<Rightarrow> updateOneOp list \<Rightarrow> store \<Rightarrow> (error + unit) \<times> store" where
  "bulkWrite name ops st =
     (case perform (BulkWrite name (length ops)) st of
        (Succeeds, st1) \<Rightarrow> (Inr (), applyBulk name ops st1)
      | (Fails k, st1) \<Rightarrow>
          (Inl (CallFailed (BulkWrite name (length ops))), applyBulk name (take k ops) st1))"

section \<open>The processor\<close>

text \<open>
  What a run takes from its environment: the names of the two collections (the
  configuration), the connection string, the platform's collator behind
  \<open>localeCompare(_, undefined, { sensitivity: 'base' })\<close>, the value of
  \<open>new Date()\<close> taken before the batch loop, and the values of \<open>Date.now()\<close> in the
  two calls of \<open>resortCollection\<close>.
\<close>

record env =
  gamesName :: string
  searchName :: string
  connectionString :: string
  localeCompare :: "string \<Rightarrow> string \<Rightarrow> int"
  currentTimestamp :: nat
  dateNowGames :: nat
  dateNowSearch :: nat

text \<open>\<open>path.basename\<close> (POSIX) and \<open>String.prototype.includes\<close>.\<close>

definition basename :: "string \<Rightarrow> string" where
  "basename p =
     rev (takeWhile (\<lambda>c. c \<noteq> CHR ''/'') (dropWhile (\<lambda>c. c = CHR ''/'') (rev p)))"

fun includesStr :: "string \<Rightarrow> string \<Rightarrow> bool" where
  "includesStr [] sub = (sub = [])"
| "includesStr (c # cs) sub = (prefix sub (c # cs) \<or> includesStr cs sub)"

definition batchSize :: "env \<Rightarrow> nat" where
  "batchSize e =
     (let isLocalhost = (includesStr (connectionString e) ''localhost''
                         \<or> includesStr (connectionString e) ''127.0.0.1'')
      in if isLocalhost then 500 else 1000)"

text \<open>
  \<open>Array.prototype.sort\<close> with a comparison function. The sort is stable; with a
  consistent comparison function its result is the stable sorted arrangement, which the
  model computes by insertion.
\<close>

fun insertSorted :: "('a \<Rightarrow> 'a \<Rightarrow> int) \<Rightarrow> 'a \<Rightarrow> 'a list \<Rightarrow> 'a list" where
  "insertSorted cmp x [] = [x]"
| "insertSorted cmp x (y # ys) =
     (if cmp x y \<le> 0 then x # y # ys else y # insertSorted cmp x ys)"

definition jsSort :: "('a \<Rightarrow> 'a \<Rightarrow> int) \<Rightarrow> 'a list \<Rightarrow> 'a list" where
  "jsSort cmp xs = foldr (insertSorted cmp) xs []"

text \<open>
  The name a document is sorted by: \<open>a.name\<close> for the decoded records, whose names are
  non-empty strings, and \<open>a.name || ''\<close> in \<open>resortCollection\<close>. Stored names are
  taken to be strings or missing, as are all the names this program writes.
\<close>

definition nameOf :: "doc \<Rightarrow> string" where
  "nameOf d = (case get d ''name'' of JStr s \<Rightarrow> s | _ \<Rightarrow> [])"

definition byName :: "env \<Rightarrow> doc \<Rightarrow> doc \<Rightarrow> int" where
  "byName e a b = localeCompare e (nameOf a) (nameOf b)"

definition gamesToProcess :: "env \<Rightarrow> changes \<Rightarrow> doc list" where
  "gamesToProcess e changesAnalysis =
     jsSort (byName e) (newGames changesAnalysis @ updatedGames changesAnalysis)"

text \<open>The two upserts built for each game in the batch loop.\<close>

definition gameUpsert :: "nat \<Rightarrow> doc \<Rightarrow> updateOneOp" where
  "gameUpsert ts gameDoc =
     \<lparr>filterId = get gameDoc ''id'',
      setFields = AList.update ''date_updated'' (JDate ts) gameDoc,
      setOnInsertFields = [(''date_created'', JDate ts)]\<rparr>"

definition searchUpsert :: "nat \<Rightarrow> doc \<Rightarrow> updateOneOp" where
  "searchUpsert ts gameDoc =
     \<lparr>filterId = get gameDoc ''id'',
      setFields = [(''id'', get gameDoc ''id''), (''name'', get gameDoc ''name''),
                   (''date_updated'', JDate ts)],
      setOnInsertFields = [(''date_created'', JDate ts)]\<rparr>"

text \<open>
  One submission of a batch: \<open>ensureConnection\<close>, then the bulk write to the games
  collection, then the bulk write to the search collection. The first attempt, the retry
  and the write of the remaining records are all this sequence.
\<close>

definition submitBatch ::
  "env \<Rightarrow> updateOneOp list \<Rightarrow> updateOneOp list \<Rightarrow> store \<Rightarrow> (error + unit) \<times> store" where
  "submitBatch e gamesBatch searchBatch =
     andThen ensureConnection (\<lambda>u.
     andThen (bulkWrite (gamesName e) gamesBatch) (\<lambda>u.
     bulkWrite (searchName e) searchBatch))"

text \<open>
  The \<open>for\<close> loop over \<open>gamesToProcess\<close>, with the batches and the count as they are
  when the loop ends. \<open>Inl\<close> is \<open>reject(retryError); return\<close>.
\<close>

fun batchLoop ::
  "env \<Rightarrow> doc list \<Rightarrow> updateOneOp list \<Rightarrow> updateOneOp list \<Rightarrow> nat \<Rightarrow> store
     \<Rightarrow> (error + (updateOneOp list \<times> updateOneOp list \<times> nat)) \<times> store" where
  "batchLoop e [] gamesBatch searchBatch totalProcessed st =
     (Inr (gamesBatch, searchBatch, totalProcessed), st)"
| "batchLoop e (gameDoc # rest) gamesBatch searchBatch totalProcessed st =
     (let gamesBatch1 = gamesBatch @ [gameUpsert (currentTimestamp e) gameDoc];
          searchBatch1 = searchBatch @ [searchUpsert (currentTimestamp e) gameDoc]
      in if length gamesBatch1 \<ge> batchSize e then
           (case submitBatch e gamesBatch1 searchBatch1 st of
              (Inr u, st1) \<Rightarrow>
                batchLoop e rest [] [] (totalProcessed + length gamesBatch1) st1
            | (Inl error, st1) \<Rightarrow>
                (case submitBatch e gamesBatch1 searchBatch1 st1 of
                   (Inr u, st2) \<Rightarrow>
                     batchLoop e rest [] [] (totalProcessed + length gamesBatch1) st2
                 | (Inl retryError, st2) \<Rightarrow> (Inl retryError, st2)))
         else batchLoop e rest gamesBatch1 searchBatch1 totalProcessed st)"

text \<open>The write of the records that remain after the loop.\<close>

definition writeRemaining ::
  "env \<Rightarrow> updateOneOp list \<Rightarrow> updateOneOp list \<Rightarrow> nat \<Rightarrow> store \<Rightarrow> (error + nat) \<times> store" where
  "writeRemaining e gamesBatch searchBatch totalProcessed =
     (if length gamesBatch > 0 then
        andThen (submitBatch e gamesBatch searchBatch) (\<lambda>u.
        returns (totalProcessed + length gamesBatch))
      else returns totalProcessed)"

subsection \<open>\<open>resortCollection\<close>\<close>

definition stripId :: "doc \<Rightarrow> doc" where
  "stripId d = AList.delete ''_id'' d"

text \<open>
  The batches of \<open>for (let i = 0; i < docs.length; i += batchSize)\<close> with
  \<open>docs.slice(i, i + batchSize)\<close>.
\<close>

definition slices :: "nat \<Rightarrow> 'a list \<Rightarrow> 'a list list" where
  "slices n xs = map (\<lambda>j. take n (drop (j * n) xs)) [0 ..< (length xs + n - 1) div n]"

fun insertBatches :: "string \<Rightarrow> doc list list \<Rightarrow> store \<Rightarrow> (error + unit) \<times> store" where
  "insertBatches name [] st = (Inr (), st)"
| "insertBatches name (batch # rest) st =
     andThen (insertMany name (map stripId batch)) (\<lambda>u. insertBatches name rest) st"

definition digitChar :: "nat \<Rightarrow> char" where
  "digitChar n = char_of (48 + n)"

function showNat :: "nat \<Rightarrow> string" where
  "showNat n = (if n < 10 then [digitChar n] else showNat (n div 10) @ [digitChar (n mod 10)])"
  by pat_completeness auto
termination
  by (relation "measure id") auto

declare showNat.simps [simp del]

definition tempCollectionName :: "string \<Rightarrow> nat \<Rightarrow> string" where
  "tempCollectionName collectionName now = collectionName @ ''_temp_'' @ showNat now"

definition resortBody :: "env \<Rightarrow> string \<Rightarrow> string \<Rightarrow> nat \<Rightarrow> store \<Rightarrow> (error + unit) \<times> store" where
  "resortBody e coll collectionName now =
     andThen (find coll) (\<lambda>allDocs.
       if length allDocs = 0 then returns ()
       else
         (let sorted = jsSort (byName e) allDocs;
              tmp = tempCollectionName collectionName now
          in andThen (getCollection tmp) (\<lambda>u.
             andThen (insertBatches tmp (slices 1000 sorted)) (\<lambda>u.
             andThen (deleteMany coll) (\<lambda>u.
             andThen (find tmp) (\<lambda>sortedDocs.
             andThen (insertBatches coll (slices 1000 sortedDocs)) (\<lambda>u.
             andThen (getCollection tmp) (\<lambda>u.
             drop_collection tmp))))))))"

text \<open>The \<open>catch\<close> of \<open>resortCollection\<close> logs the error and returns.\<close>

definition resortCollection ::
  "env \<Rightarrow> string \<Rightarrow> string \<Rightarrow> nat \<Rightarrow> store \<Rightarrow> (error + unit) \<times> store" where
  "resortCollection e coll collectionName now =
     tryCatch (resortBody e coll collectionName now) (\<lambda>error. returns ())"

subsection \<open>\<open>processCsvFile\<close>\<close>

text \<open>
  The parsed file as the stream delivers it: the rows, and then either \<open>end\<close> or
  \<open>error\<close>.
\<close>

datatype csvStream = Ends "row list" | Errors "row list"

definition readStream :: "string \<Rightarrow> csvStream \<Rightarrow> store \<Rightarrow> (error + row list) \<times> store" where
  "readStream csvPath input st =
     (case input of
        Ends rows \<Rightarrow> (Inr rows, st\<lparr>calls := calls st @ [ReadStream csvPath]\<rparr>)
      | Errors rows \<Rightarrow> (Inl StreamError, st\<lparr>calls := calls st @ [ReadStream csvPath]\<rparr>))"

definition jsNat :: "nat \<Rightarrow> jsval" where
  "jsNat n = JNum (Fin (of_int (int n)))"

definition noChangesResult :: doc where
  "noChangesResult =
     [(''totalProcessed'', jsNat 0), (''newGamesCount'', jsNat 0),
      (''updatedGamesCount'', jsNat 0), (''noChanges'', JBool True)]"

definition successResult :: "nat \<Rightarrow> changes \<Rightarrow> doc" where
  "successResult totalProcessed changesAnalysis =
     [(''totalProcessed'', jsNat totalProcessed),
      (''newGamesCount'', jsNat (length (newGames changesAnalysis))),
      (''updatedGamesCount'', jsNat (length (updatedGames changesAnalysis)))]"

text \<open>
  The \<open>end\<close> handler. \<open>checked\<close>, the number of rows read, is only logged.
\<close>

definition onEnd :: "env \<Rightarrow> doc list \<Rightarrow> nat \<Rightarrow> store \<Rightarrow> (error + doc) \<times> store" where
  "onEnd e allRecords checked =
     andThen (find (gamesName e)) (\<lambda>existingGames.
       (let existingGamesMap = buildExistingGamesMap existingGames;
            changesAnalysis = analyzeChanges allRecords existingGamesMap;
            hasChanges = (length (newGames changesAnalysis) > 0
                          \<or> length (updatedGames changesAnalysis) > 0)
        in if \<not> hasChanges then returns noChangesResult
           else
             andThen (batchLoop e (gamesToProcess e changesAnalysis) [] [] 0)
               (\<lambda>(gamesBatch, searchBatch, totalProcessed).
             andThen (writeRemaining e gamesBatch searchBatch totalProcessed)
               (\<lambda>totalProcessed.
             andThen (resortCollection e (gamesName e) ''board_games'' (dateNowGames e)) (\<lambda>u.
             andThen (resortCollection e (searchName e) ''games_search'' (dateNowSearch e)) (\<lambda>u.
             returns (successResult totalProcessed changesAnalysis)))))))"

definition processCsvFile :: "env \<Rightarrow> string \<Rightarrow> csvStream \<Rightarrow> store \<Rightarrow> (error + doc) \<times> store" where
  "processCsvFile e csvPath input st =
     (let fileName = basename csvPath
      in if \<not> includesStr fileName ''boardgames_ranks'' then (Inl UnsupportedFile, st)
         else
           (andThen createIndexes (\<lambda>u.
            andThen (getCollection (gamesName e)) (\<lambda>u.
            andThen (getCollection (searchName e)) (\<lambda>u.
            andThen (readStream csvPath input) (\<lambda>rows.
            onEnd e (collectRecords rows) (length rows)))))) st)"

section \<open>Notions used to state the properties\<close>

text \<open>
  The comparison policy, on doubles. Two values match within the tolerance when they are
  the same value (two absent values, two values that are both not-a-number, the same
  string or boolean) or are numbers whose difference, computed in double arithmetic, is in
  absolute value at most the double \<open>0.001\<close>; they differ beyond the tolerance when
  they are numbers whose computed difference exceeds the double \<open>0.001\<close> in absolute
  value, or are not both numbers and are different values. A number and \<open>NaN\<close> have
  the difference \<open>NaN\<close>, which is neither.
\<close>

fun num_le :: "jsnum \<Rightarrow> jsnum \<Rightarrow> bool" where
  "num_le NaN b = False"
| "num_le a NaN = False"
| "num_le NegInf b = True"
| "num_le a PosInf = True"
| "num_le PosInf b = False"
| "num_le (Fin x) NegInf = False"
| "num_le (Fin x) (Fin y) = (x \<le> y)"

definition matchesWithinTolerance :: "jsval \<Rightarrow> jsval \<Rightarrow> bool" where
  "matchesWithinTolerance a b =
     (a = b \<or> (isNumber a \<and> isNumber b
               \<and> num_le (num_abs (num_sub (numOf a) (numOf b))) tolerance))"

definition differsBeyondTolerance :: "jsval \<Rightarrow> jsval \<Rightarrow> bool" where
  "differsBeyondTolerance a b =
     (if isNumber a \<and> isNumber b
      then num_gt (num_abs (num_sub (numOf a) (numOf b))) tolerance
      else a \<noteq> b)"

text \<open>
  A comparison function is consistent when swapping its arguments swaps the sign of its
  result and its \<open>\<le> 0\<close> is transitive.
\<close>

definition consistentCompare :: "('a \<Rightarrow> 'a \<Rightarrow> int) \<Rightarrow> bool" where
  "consistentCompare cmp =
     ((\<forall>a b. (cmp a b < 0) = (cmp b a > 0))
      \<and> (\<forall>a b c. cmp a b \<le> 0 \<longrightarrow> cmp b c \<le> 0 \<longrightarrow> cmp a c \<le> 0))"

text \<open>
  The condition under which one pass of the loop of \<open>hasGameDataChanged\<close> returns
  \<open>true\<close>, as a predicate on the two values read.
\<close>

definition valuesDiffer :: "jsval \<Rightarrow> jsval \<Rightarrow> bool" where
  "valuesDiffer a b =
     (\<not> strict_eq a b \<and>
      (isNumber a \<and> isNumber b \<longrightarrow>
         \<not> (numOf a = NaN \<and> numOf b = NaN)
         \<and> num_gt (num_abs (num_sub (numOf a) (numOf b))) tolerance))"

text \<open>Values that are not objects: everything but dates and object identifiers.\<close>

definition notObject :: "jsval \<Rightarrow> bool" where
  "notObject v = (case v of JDate t \<Rightarrow> False | JOid i \<Rightarrow> False | _ \<Rightarrow> True)"

text \<open>The first \<open>n\<close> calls of a schedule succeed.\<close>

definition succeedsFirst :: "nat \<Rightarrow> outcome list \<Rightarrow> bool" where
  "succeedsFirst n outs = list_all (\<lambda>out. out = Succeeds) (take n outs)"

subsection \<open>A concrete environment\<close>

text \<open>
  For the examples: a collator on ASCII names that ignores case, comparing the
  case-folded character codes, and the collection names of \<open>config/bgg-config.js\<close>.
\<close>

definition foldKey :: "string \<Rightarrow> nat list" where
  "foldKey s =
     map (\<lambda>c. let n = (of_char c :: nat) in if 65 \<le> n \<and> n \<le> 90 then n + 32 else n) s"

definition asciiCompare :: "string \<Rightarrow> string \<Rightarrow> int" where
  "asciiCompare a b =
     (if foldKey a < foldKey b then - 1 else if foldKey a = foldKey b then 0 else 1)"

definition exampleEnv :: env where
  "exampleEnv =
     \<lparr>gamesName = ''board_games'', searchName = ''games_search'',
      connectionString = ''mongodb://localhost:27017'',
      localeCompare = asciiCompare,
      currentTimestamp = 100, dateNowGames = 101, dateNowSearch = 102\<rparr>"

definition storeWith :: "doc list \<Rightarrow> doc list \<Rightarrow> outcome list \<Rightarrow> store" where
  "storeWith games search outs =
     \<lparr>collections = [(''board_games'', games), (''games_search'', search)],
      nextOid = 1000, outcomes = outs, calls = []\<rparr>"

subsection \<open>The three classes of the differ\<close>

text \<open>
  The branch that \<open>analyzeChanges\<close> takes for a record, given the map of the stored
  games.
\<close>

definition isNew :: "gamesMap \<Rightarrow> doc \<Rightarrow> bool" where
  "isNew m r = (map_of m (get r ''id'') = None)"

definition isChanged :: "gamesMap \<Rightarrow> doc \<Rightarrow> bool" where
  "isChanged m r =
     (case map_of m (get r ''id'') of None \<Rightarrow> False | Some ex \<Rightarrow> hasGameDataChanged r ex)"

definition isUnchanged :: "gamesMap \<Rightarrow> doc \<Rightarrow> bool" where
  "isUnchanged m r =
     (case map_of m (get r ''id'') of None \<Rightarrow> False | Some ex \<Rightarrow> \<not> hasGameDataChanged r ex)"

subsection \<open>An example file and an example store\<close>

definition exampleRows :: "row list" where
  "exampleRows =
     [[(''id'', ''1''), (''name'', ''Ant''), (''rank'', ''3''), (''bayesaverage'', ''7.5004'')],
      [(''id'', ''2''), (''name'', ''Zed'')],
      [(''id'', ''3''), (''name'', ''Bee''), (''rank'', ''9'')]]"

definition exampleStored :: "doc list" where
  "exampleStored =
     [[(''_id'', JOid 1), (''id'', JNum (Fin 1)), (''name'', JStr ''Ant''), (''rank'', JNum (Fin 3)),
       (''bayes_average'', JNum (Fin (15 / 2))), (''is_expansion'', JBool False),
       (''date_updated'', JDate 50), (''date_created'', JDate 40)],
      [(''_id'', JOid 2), (''id'', JNum (Fin 3)), (''name'', JStr ''Bee''), (''rank'', JNum (Fin 8)),
       (''is_expansion'', JBool False),
       (''date_updated'', JDate 50), (''date_created'', JDate 40)]]"

definition decodedAnt :: doc where
  "decodedAnt = [(''id'', JNum (Fin 1)), (''name'', JStr ''Ant''), (''rank'', JNum (Fin 3)),
                 (''bayes_average'', JNum (Fin (8444699661282417 / 1125899906842624))),
                 (''is_expansion'', JBool False)]"

definition decodedZed :: doc where
  "decodedZed = [(''id'', JNum (Fin 2)), (''name'', JStr ''Zed''), (''is_expansion'', JBool False)]"

definition decodedBee :: doc where
  "decodedBee = [(''id'', JNum (Fin 3)), (''name'', JStr ''Bee''), (''rank'', JNum (Fin 9)),
                 (''is_expansion'', JBool False)]"

text \<open>
  Two rows with the same name: the first is a changed game, the second a new one.
\<close>

definition tieRows :: "row list" where
  "tieRows =
     [[(''id'', ''1''), (''name'', ''Catan''), (''rank'', ''3'')],
      [(''id'', ''2''), (''name'', ''Catan'')]]"

definition tieStored :: "doc list" where
  "tieStored =
     [[(''_id'', JOid 1), (''id'', JNum (Fin 1)), (''name'', JStr ''Catan''), (''rank'', JNum (Fin 5)),
       (''is_expansion'', JBool False), (''date_updated'', JDate 50), (''date_created'', JDate 40)]]"

definition catan1 :: doc where
  "catan1 = [(''id'', JNum (Fin 1)), (''name'', JStr ''Catan''), (''rank'', JNum (Fin 3)),
             (''is_expansion'', JBool False)]"

definition catan2 :: doc where
  "catan2 = [(''id'', JNum (Fin 2)), (''name'', JStr ''Catan''), (''is_expansion'', JBool False)]"

definition exampleSearch :: "doc list" where
  "exampleSearch =
     [[(''_id'', JOid 3), (''id'', JNum (Fin 1)), (''name'', JStr ''Ant''),
       (''date_updated'', JDate 50), (''date_created'', JDate 40)],
      [(''_id'', JOid 4), (''id'', JNum (Fin 3)), (''name'', JStr ''Bee''),
       (''date_updated'', JDate 50), (''date_created'', JDate 40)]]"

text \<open>
  A record and a stored document whose averages are the doubles read from \<open>0.003\<close> and
  \<open>0.002\<close>.
\<close>

definition roundingDecoded :: doc where
  "roundingDecoded =
     [(''id'', JNum (Fin 1)), (''name'', JStr ''Ant''),
      (''bayes_average'', JNum (Fin (3458764513820541 / 1152921504606846976))),
      (''is_expansion'', JBool False)]"

definition roundingStored :: doc where
  "roundingStored =
     [(''_id'', JOid 1), (''id'', JNum (Fin 1)), (''name'', JStr ''Ant''),
      (''bayes_average'', JNum (Fin (1152921504606847 / 576460752303423488))),
      (''is_expansion'', JBool False), (''date_updated'', JDate 50), (''date_created'', JDate 40)]"

section \<open>Properties\<close>

subsection \<open>The decoder\<close>

lemma map_of_filter_snd:
  "distinct (map fst d) \<Longrightarrow>
   map_of (filter (\<lambda>kv. Q (snd kv)) d) k =
     (case map_of d k of None \<Rightarrow> None | Some v \<Rightarrow> if Q v then Some v else None)"
proof (induction d)
  case Nil
  then show ?case by simp
next
  case (Cons p d)
  have absent: "fst p \<notin> fst ` set d" using Cons.prems by simp
  then have "map_of d (fst p) = None" by (simp add: map_of_eq_None_iff)
  with Cons show ?case
    by (cases p) (auto split: option.splits)
qed

lemma get_cleanUp:
  "distinct (map fst d) \<Longrightarrow>
   get (cleanUp d) k = (if isDeleted (get d k) then JUndefined else get d k)"
  by (simp add: get_def cleanUp_def map_of_filter_snd [where Q = "\<lambda>v. \<not> isDeleted v"]
        isDeleted_def [of JUndefined] split: option.splits)

lemma distinct_gameDocOfRow: "distinct (map fst (gameDocOfRow r))"
  by (simp add: gameDocOfRow_def)

lemma get_decoded:
  "get (cleanUp (gameDocOfRow r)) k =
     (if isDeleted (get (gameDocOfRow r) k) then JUndefined else get (gameDocOfRow r) k)"
  by (rule get_cleanUp [OF distinct_gameDocOfRow])

lemma get_name_row: "get (gameDocOfRow r) ''name'' = rowStr r ''name''"
  by (simp add: get_def gameDocOfRow_def)

lemma get_id_row: "get (gameDocOfRow r) ''id'' = JNum (parseInt (map_of r ''id''))"
  by (simp add: get_def gameDocOfRow_def)

lemmas parse_defs = parseIntStr_def parseFloatStr_def parseInt_def parseFloat_def
  isStrWhiteSpaceChar_def decDigit_def hexDigit_def digitsValue_def

lemma parseIntStr_cases: "parseIntStr s = NaN \<or> (\<exists>x. parseIntStr s = Fin x)"
  by (simp add: parseIntStr_def Let_def)

lemma parseInt_cases: "parseInt v = NaN \<or> (\<exists>x. parseInt v = Fin x)"
  using parseIntStr_cases by (cases v) (auto simp: parseInt_def)

text \<open>
  Claim C2, as amended. The decoder yields a record for a row if and only if the row has
  a non-empty name and an id that parses to a number other than zero; a row that lacks
  either of the two is dropped.
\<close>

theorem row_yielded_iff:
  "(rowHandler r \<noteq> None) =
     ((\<exists>n. map_of r ''name'' = Some n \<and> n \<noteq> [])
      \<and> (\<exists>x. parseInt (map_of r ''id'') = Fin x \<and> x \<noteq> 0))"
proof -
  have n: "truthy (get (cleanUp (gameDocOfRow r)) ''name'')
           = (\<exists>n. map_of r ''name'' = Some n \<and> n \<noteq> [])"
    by (auto simp: get_decoded get_name_row isDeleted_def rowStr_def split: option.splits)
  have i: "truthy (get (cleanUp (gameDocOfRow r)) ''id'')
           = (\<exists>x. parseInt (map_of r ''id'') = Fin x \<and> x \<noteq> 0)"
    using parseInt_cases [of "map_of r ''id''"]
    by (auto simp: get_decoded get_id_row isDeleted_def)
  show ?thesis
    by (simp add: rowHandler_def Let_def n i)
qed

text \<open>
  A row with a name and the id 2 is yielded; the same row with the id 0 is not.
\<close>

theorem row_yielded_iff_witness:
  "rowHandler [(''id'', ''2''), (''name'', ''Zed'')] \<noteq> None
   \<and> \<not> rowHandler [(''id'', ''0''), (''name'', ''Zed'')] \<noteq> None"
  using row_yielded_iff [of "[(''id'', ''2''), (''name'', ''Zed'')]"]
    row_yielded_iff [of "[(''id'', ''0''), (''name'', ''Zed'')]"]
  by (simp add: parse_defs)

text \<open>
  Claim C2 as stated fails: a row that has an id and no name is dropped.
\<close>

theorem row_with_id_dropped:
  "map_of [(''id'', ''7''), (''rank'', ''3'')] ''id'' = Some ''7''
   \<and> rowHandler [(''id'', ''7''), (''rank'', ''3'')] = None"
  by code_simp


subsection \<open>The field comparison\<close>

lemma compareFields_Cons:
  "compareFields (f # fs) n ex = (compareFields [f] n ex \<or> compareFields fs n ex)"
  by (simp add: Let_def)

lemma compareFields_iff:
  "compareFields fs n ex = (\<exists>f\<in>set fs. compareFields [f] n ex)"
proof (induction fs)
  case Nil
  show ?case by simp
next
  case (Cons f fs)
  have "compareFields (f # fs) n ex = (compareFields [f] n ex \<or> compareFields fs n ex)"
    by (rule compareFields_Cons)
  also have "\<dots> = (compareFields [f] n ex \<or> (\<exists>g\<in>set fs. compareFields [g] n ex))"
    using Cons.IH by simp
  finally show ?case by auto
qed

lemma compareFields_single:
  "compareFields [f] n ex = valuesDiffer (get n f) (get ex f)"
  by (auto simp: Let_def valuesDiffer_def)

lemma strict_eq_imp_eq: "strict_eq a b \<Longrightarrow> a = b"
  by (cases a; cases b) auto

lemma num_le_not_gt: "num_le x y \<Longrightarrow> \<not> num_gt x y"
  by (cases x; cases y) auto

lemma tolerance_value: "tolerance = Fin (1152921504606847 / 1152921504606846976)"
  by code_simp

lemma roundToDouble_zero: "roundToDouble 0 = Fin 0"
  by (simp add: roundToDouble_def)

lemma num_gt_diff_neq:
  "num_gt (num_abs (num_sub x y)) tolerance \<Longrightarrow> x \<noteq> y \<and> x \<noteq> NaN \<and> y \<noteq> NaN"
  by (cases x; cases y) (auto simp: tolerance_value roundToDouble_zero)

lemma strict_eq_refl: "notObject a \<Longrightarrow> a \<noteq> JNum NaN \<Longrightarrow> strict_eq a a"
  by (cases a) (auto simp: notObject_def)

lemma matches_not_differ:
  "notObject a \<Longrightarrow> matchesWithinTolerance a b \<Longrightarrow> \<not> valuesDiffer a b"
  unfolding matchesWithinTolerance_def valuesDiffer_def
  using strict_eq_refl [of a] num_le_not_gt
  by (cases "a = JNum NaN") (auto simp: isNumber_def numOf_def)

lemma differs_valuesDiffer:
  "differsBeyondTolerance a b \<Longrightarrow> valuesDiffer a b"
  unfolding differsBeyondTolerance_def valuesDiffer_def
  using strict_eq_imp_eq [of a b] num_gt_diff_neq [of "numOf a" "numOf b"]
  by (cases a; cases b) (auto simp: isNumber_def numOf_def split: if_splits)

text \<open>
  Claim C7, as amended. In the comparison of a field, two absent values compare as equal
  and so do two values that are both \<open>NaN\<close>; an absent value against a present one
  marks the record changed, whatever the present value is (\<open>NaN\<close> included). The record
  is changed exactly when the comparison of one of the compared fields says so.
\<close>

theorem absent_and_nan_comparison:
  "(get n f = JUndefined \<and> get ex f = JUndefined \<longrightarrow> \<not> compareFields [f] n ex)
   \<and> (get n f = JNum NaN \<and> get ex f = JNum NaN \<longrightarrow> \<not> compareFields [f] n ex)
   \<and> ((get n f = JUndefined) \<noteq> (get ex f = JUndefined) \<longrightarrow> compareFields [f] n ex)
   \<and> hasGameDataChanged n ex = (\<exists>g\<in>set fieldsToCompare. compareFields [g] n ex)"
proof -
  have 1: "get n f = JUndefined \<and> get ex f = JUndefined \<longrightarrow> \<not> compareFields [f] n ex"
    by (simp add: Let_def)
  have 2: "get n f = JNum NaN \<and> get ex f = JNum NaN \<longrightarrow> \<not> compareFields [f] n ex"
    by (simp add: Let_def isNumber_def numOf_def)
  have 3: "(get n f = JUndefined) \<noteq> (get ex f = JUndefined) \<longrightarrow> compareFields [f] n ex"
  proof (cases "get n f = JUndefined")
    case True
    then show ?thesis by (simp add: Let_def isNumber_def)
  next
    case False
    then show ?thesis
      by (cases "get n f") (auto simp: Let_def isNumber_def)
  qed
  have 4: "hasGameDataChanged n ex = (\<exists>g\<in>set fieldsToCompare. compareFields [g] n ex)"
    unfolding hasGameDataChanged_def by (rule compareFields_iff)
  from 1 2 3 4 show ?thesis by blast
qed

text \<open>
  The three cases of the comparison at the field \<open>rank\<close>.
\<close>

theorem absent_and_nan_comparison_witness:
  "\<not> compareFields [''rank''] [(''name'', JStr ''Ant'')] [(''name'', JStr ''Ant'')]
   \<and> \<not> compareFields [''rank''] [(''rank'', JNum NaN)] [(''rank'', JNum NaN)]
   \<and> compareFields [''rank''] [(''name'', JStr ''Ant'')] [(''rank'', JNum (Fin 5))]
   \<and> hasGameDataChanged [(''name'', JStr ''Ant'')] [(''rank'', JNum (Fin 5))]"
proof -
  have a: "\<not> compareFields [''rank''] [(''name'', JStr ''Ant'')] [(''name'', JStr ''Ant'')]"
    using absent_and_nan_comparison
      [of "[(''name'', JStr ''Ant'')]" "''rank''" "[(''name'', JStr ''Ant'')]"]
    by (simp add: get_def)
  have b: "\<not> compareFields [''rank''] [(''rank'', JNum NaN)] [(''rank'', JNum NaN)]"
    using absent_and_nan_comparison
      [of "[(''rank'', JNum NaN)]" "''rank''" "[(''rank'', JNum NaN)]"]
    by (simp add: get_def)
  have c: "compareFields [''rank''] [(''name'', JStr ''Ant'')] [(''rank'', JNum (Fin 5))]"
    using absent_and_nan_comparison
      [of "[(''name'', JStr ''Ant'')]" "''rank''" "[(''rank'', JNum (Fin 5))]"]
    by (simp add: get_def)
  have d: "hasGameDataChanged [(''name'', JStr ''Ant'')] [(''rank'', JNum (Fin 5))]"
    using absent_and_nan_comparison
      [of "[(''name'', JStr ''Ant'')]" "''rank''" "[(''rank'', JNum (Fin 5))]"] c
    by (auto simp: fieldsToCompare_def)
  from a b c d show ?thesis by blast
qed

text \<open>
  Claim C7 as stated fails: a field absent from the decoded record and \<open>NaN\<close> in the
  stored one marks the record changed.
\<close>

theorem absent_against_nan_changed:
  "get [(''name'', JStr ''Ant'')] ''rank'' = JUndefined
   \<and> get [(''name'', JStr ''Ant''), (''rank'', JNum NaN)] ''rank'' = JNum NaN
   \<and> hasGameDataChanged [(''name'', JStr ''Ant'')] [(''name'', JStr ''Ant''), (''rank'', JNum NaN)]"
  by code_simp

subsection \<open>Rounding near the tolerance\<close>

lemma pow2_powi: "pow2 k = 2 powi k"
  by (simp add: pow2_def power_int_def power_inverse field_simps)

lemma pow2_pos: "0 < pow2 k"
  by (simp add: pow2_powi zero_less_power_int)

lemma pow2_mono: "k \<le> l \<Longrightarrow> pow2 k \<le> pow2 l"
  by (simp add: pow2_powi power_int_increasing)

lemma pow2_add: "pow2 (k + l) = pow2 k * pow2 l"
  by (simp add: pow2_powi power_int_add)

lemma pow2_nat: "0 \<le> k \<Longrightarrow> pow2 k = 2 ^ nat k"
  by (simp add: pow2_def)

lemma pow2_shift: "pow2 53 * pow2 (e - 52) = pow2 (e + 1)"
proof -
  have "53 + (e - 52) = e + 1" by simp
  with pow2_add [of 53 "e - 52"] show ?thesis by simp
qed

lemma roundHalfEven_le:
  assumes "x \<le> of_int m"
  shows "roundHalfEven x \<le> m"
proof -
  have f: "\<lfloor>x\<rfloor> \<le> m" using assms by (simp add: floor_le_iff)
  show ?thesis
  proof (cases "\<lfloor>x\<rfloor> = m")
    case True
    with assms have "x - of_int \<lfloor>x\<rfloor> \<le> 0" by simp
    then have "x - of_int \<lfloor>x\<rfloor> < 1 / 2" by simp
    with True show ?thesis by (simp add: roundHalfEven_def Let_def)
  next
    case False
    with f have "\<lfloor>x\<rfloor> + 1 \<le> m" by simp
    then show ?thesis by (auto simp: roundHalfEven_def Let_def)
  qed
qed

lemma roundHalfEven_nonneg: "0 \<le> x \<Longrightarrow> 0 \<le> roundHalfEven x"
  by (auto simp: roundHalfEven_def Let_def)

lemma binaryExponent_bounds:
  assumes "0 < a"
  shows "pow2 (binaryExponent a) \<le> a \<and> a < pow2 (binaryExponent a + 1)"
proof -
  obtain p q where pq: "quotient_of a = (p, q)" by (cases "quotient_of a") auto
  have q: "0 < q" by (rule quotient_of_denom_pos [OF pq])
  have a: "a = of_int p / of_int q" by (rule quotient_of_div [OF pq])
  from assms a q have p: "0 < p" by (simp add: zero_less_divide_iff)
  let ?k = "bitlen p - bitlen q"
  from bitlen_bounds [OF p] have bp: "2 ^ nat (bitlen p - 1) \<le> p" "p < 2 ^ nat (bitlen p)" by auto
  from bitlen_bounds [OF q] have bq: "2 ^ nat (bitlen q - 1) \<le> q" "q < 2 ^ nat (bitlen q)" by auto
  have p1: "1 \<le> bitlen p" using p by (auto simp: bitlen_alt_def)
  have q1: "1 \<le> bitlen q" using q by (auto simp: bitlen_alt_def)
  have P: "pow2 (bitlen p - 1) \<le> of_int p" "of_int p < pow2 (bitlen p)"
    using bp p1 by (simp_all add: pow2_nat)
  have Q: "pow2 (bitlen q - 1) \<le> of_int q" "of_int q < pow2 (bitlen q)"
    using bq q1 by (simp_all add: pow2_nat)
  have qr: "0 < (of_int q :: rat)" using q by simp
  have up: "a < pow2 (?k + 1)"
  proof -
    have "of_int p < pow2 (bitlen p)" by (rule P(2))
    also have "\<dots> = pow2 (?k + 1) * pow2 (bitlen q - 1)"
      by (simp add: pow2_add [symmetric])
    also have "\<dots> \<le> pow2 (?k + 1) * of_int q"
      using Q(1) pow2_pos [of "?k + 1"] by (simp add: mult_left_mono less_imp_le)
    finally show ?thesis using qr by (simp add: a pos_divide_less_eq)
  qed
  have lo: "pow2 (?k - 1) < a"
  proof -
    have "pow2 (?k - 1) * of_int q < pow2 (?k - 1) * pow2 (bitlen q)"
      using Q(2) pow2_pos [of "?k - 1"] by (simp add: mult_strict_left_mono)
    also have "\<dots> = pow2 (bitlen p - 1)"
      by (simp add: pow2_add [symmetric])
    also have "\<dots> \<le> of_int p" by (rule P(1))
    finally show ?thesis using qr by (simp add: a pos_less_divide_eq)
  qed
  show ?thesis
  proof (cases "pow2 ?k \<le> a")
    case True
    then have "binaryExponent a = ?k" by (simp add: binaryExponent_def pq Let_def)
    with True up show ?thesis by simp
  next
    case False
    then have "binaryExponent a = ?k - 1" by (simp add: binaryExponent_def pq Let_def)
    with False lo show ?thesis by simp
  qed
qed


lemma roundToDouble_pos:
  assumes "0 < a"
  shows "roundToDouble a =
     (if max (binaryExponent a) (- 1022) > 1023
         \<or> (max (binaryExponent a) (- 1022) = 1023
            \<and> roundHalfEven (a / pow2 (max (binaryExponent a) (- 1022) - 52)) \<ge> 2 ^ 53)
      then PosInf
      else Fin (of_int (roundHalfEven (a / pow2 (max (binaryExponent a) (- 1022) - 52)))
                * pow2 (max (binaryExponent a) (- 1022) - 52)))"
proof -
  from assms have "a \<noteq> 0" "\<not> a < 0" "\<bar>a\<bar> = a" by simp_all
  then show ?thesis unfolding roundToDouble_def Let_def by (simp only: if_False)
qed

lemma roundToDouble_neg:
  assumes "d < 0"
  shows "roundToDouble d =
     (if max (binaryExponent \<bar>d\<bar>) (- 1022) > 1023
         \<or> (max (binaryExponent \<bar>d\<bar>) (- 1022) = 1023
            \<and> roundHalfEven (\<bar>d\<bar> / pow2 (max (binaryExponent \<bar>d\<bar>) (- 1022) - 52)) \<ge> 2 ^ 53)
      then NegInf
      else Fin (- (of_int (roundHalfEven (\<bar>d\<bar> / pow2 (max (binaryExponent \<bar>d\<bar>) (- 1022) - 52)))
                   * pow2 (max (binaryExponent \<bar>d\<bar>) (- 1022) - 52))))"
proof -
  from assms have "d \<noteq> 0" by simp
  with assms show ?thesis unfolding roundToDouble_def Let_def by (simp only: if_False if_True)
qed

lemma roundToDouble_small:
  assumes pos: "0 < a" and small: "a \<le> 1 / 1000"
  shows "\<exists>v. roundToDouble a = Fin v \<and> 0 \<le> v \<and> v \<le> 1152921504606847 / 1152921504606846976"
proof -
  define b where "b = binaryExponent a"
  define e where "e = max b (- 1022)"
  define q where "q = pow2 (e - 52)"
  define n where "n = roundHalfEven (a / q)"
  from binaryExponent_bounds [OF pos] have lo: "pow2 b \<le> a" and up: "a < pow2 (b + 1)"
    by (auto simp: b_def)
  have b10: "b \<le> - 10"
  proof (rule ccontr)
    assume "\<not> b \<le> - 10"
    then have "- 9 \<le> b" by simp
    from pow2_mono [OF this] lo small have "pow2 (- 9) \<le> 1 / 1000" by simp
    then show False by (simp add: pow2_def)
  qed
  then have e10: "e \<le> - 10" and be: "b \<le> e" by (simp_all add: e_def)
  have qpos: "0 < q" unfolding q_def by (rule pow2_pos)
  have npos: "0 \<le> n" unfolding n_def using pos qpos by (intro roundHalfEven_nonneg) simp
  have "roundToDouble a = (if e > 1023 \<or> (e = 1023 \<and> n \<ge> 2 ^ 53) then PosInf
                           else Fin (of_int n * q))"
    unfolding n_def q_def e_def b_def by (rule roundToDouble_pos [OF pos])
  with e10 have val: "roundToDouble a = Fin (of_int n * q)" by simp
  have nonneg: "0 \<le> of_int n * q" using npos qpos by simp
  have bound: "of_int n * q \<le> 1152921504606847 / 1152921504606846976"
  proof (cases "e = - 10")
    case True
    then have q: "q = 1 / 2 ^ 62" by (simp add: q_def pow2_def)
    have "a / q \<le> of_int 4611686018427388" using small by (simp add: q)
    then have "n \<le> 4611686018427388" unfolding n_def by (rule roundHalfEven_le)
    then have "(of_int n :: rat) \<le> 4611686018427388" by (metis of_int_le_iff of_int_numeral)
    then show ?thesis by (simp add: q)
  next
    case False
    with e10 have e11: "e + 1 \<le> - 10" by simp
    have "a < pow2 (e + 1)"
      using up pow2_mono [of "b + 1" "e + 1"] be by simp
    also have "pow2 (e + 1) = pow2 53 * q"
      unfolding q_def by (rule pow2_shift [symmetric])
    finally have "a / q < pow2 53" using qpos by (simp add: pos_divide_less_eq)
    then have "a / q \<le> of_int (2 ^ 53)" by (simp add: pow2_def)
    then have "n \<le> 2 ^ 53" unfolding n_def by (rule roundHalfEven_le)
    then have "(of_int n :: rat) \<le> of_int (2 ^ 53)" by (simp only: of_int_le_iff)
    then have "(of_int n :: rat) \<le> pow2 53" by (simp add: pow2_def)
    then have "of_int n * q \<le> pow2 53 * q" using qpos by (simp add: mult_right_mono)
    also have "\<dots> = pow2 (e + 1)" unfolding q_def by (rule pow2_shift)
    also have "\<dots> \<le> pow2 (- 10)" by (rule pow2_mono [OF e11])
    also have "\<dots> \<le> 1152921504606847 / 1152921504606846976" by (simp add: pow2_def)
    finally show ?thesis .
  qed
  from val nonneg bound show ?thesis by blast
qed

lemma num_abs_roundToDouble: "num_abs (roundToDouble d) = roundToDouble \<bar>d\<bar>"
proof -
  consider "d = 0" | "0 < d" | "d < 0" by linarith
  then show ?thesis
  proof cases
    case 1
    then show ?thesis by (simp add: roundToDouble_def)
  next
    case 2
    define v where "v = of_int (roundHalfEven (d / pow2 (max (binaryExponent d) (- 1022) - 52)))
              * pow2 (max (binaryExponent d) (- 1022) - 52)"
    have "0 \<le> v"
      unfolding v_def using 2 pow2_pos [of "max (binaryExponent d) (- 1022) - 52"]
      by (intro mult_nonneg_nonneg) (simp_all add: roundHalfEven_nonneg less_imp_le)
    moreover from 2 have "\<bar>d\<bar> = d" by simp
    ultimately show ?thesis
      by (simp add: roundToDouble_pos [OF 2] v_def [symmetric])
  next
    case 3
    then have a: "0 < \<bar>d\<bar>" by simp
    define c where "c \<longleftrightarrow> max (binaryExponent \<bar>d\<bar>) (- 1022) > 1023
         \<or> (max (binaryExponent \<bar>d\<bar>) (- 1022) = 1023
            \<and> roundHalfEven (\<bar>d\<bar> / pow2 (max (binaryExponent \<bar>d\<bar>) (- 1022) - 52)) \<ge> 2 ^ 53)"
    define v where "v = of_int (roundHalfEven (\<bar>d\<bar> / pow2 (max (binaryExponent \<bar>d\<bar>) (- 1022) - 52)))
              * pow2 (max (binaryExponent \<bar>d\<bar>) (- 1022) - 52)"
    have v: "0 \<le> v"
      unfolding v_def using a pow2_pos [of "max (binaryExponent \<bar>d\<bar>) (- 1022) - 52"]
      by (intro mult_nonneg_nonneg) (simp_all add: roundHalfEven_nonneg less_imp_le)
    have L: "roundToDouble d = (if c then NegInf else Fin (- v))"
      unfolding c_def v_def by (rule roundToDouble_neg [OF 3])
    have "roundToDouble \<bar>d\<bar> = (if max (binaryExponent \<bar>\<bar>d\<bar>\<bar>) (- 1022) > 1023
         \<or> (max (binaryExponent \<bar>\<bar>d\<bar>\<bar>) (- 1022) = 1023
            \<and> roundHalfEven (\<bar>\<bar>d\<bar>\<bar> / pow2 (max (binaryExponent \<bar>\<bar>d\<bar>\<bar>) (- 1022) - 52)) \<ge> 2 ^ 53)
      then PosInf
      else Fin (of_int (roundHalfEven (\<bar>\<bar>d\<bar>\<bar> / pow2 (max (binaryExponent \<bar>\<bar>d\<bar>\<bar>) (- 1022) - 52)))
                * pow2 (max (binaryExponent \<bar>\<bar>d\<bar>\<bar>) (- 1022) - 52)))"
      using roundToDouble_pos [OF a] by (simp only: abs_idempotent)
    then have R: "roundToDouble \<bar>d\<bar> = (if c then PosInf else Fin v)"
      unfolding c_def v_def by (simp only: abs_idempotent)
    from v show ?thesis by (simp add: L R)
  qed
qed

lemma within_thousandth_matches:
  assumes "\<bar>x - y\<bar> \<le> 1 / 1000"
  shows "matchesWithinTolerance (JNum (Fin x)) (JNum (Fin y))"
proof (cases "x = y")
  case True
  then show ?thesis by (simp add: matchesWithinTolerance_def)
next
  case False
  then have "0 < \<bar>x - y\<bar>" by simp
  from roundToDouble_small [OF this assms] obtain v where
    v: "roundToDouble \<bar>x - y\<bar> = Fin v" "v \<le> 1152921504606847 / 1152921504606846976" by blast
  then show ?thesis
    by (simp add: matchesWithinTolerance_def isNumber_def numOf_def num_abs_roundToDouble
        tolerance_value)
qed

subsection \<open>The differ\<close>

lemma values_gameDocOfRow: "\<forall>kv\<in>set (gameDocOfRow r). notObject (snd kv)"
  by (simp add: gameDocOfRow_def notObject_def rowStr_def split: option.splits)

lemma notObject_get: "\<forall>kv\<in>set d. notObject (snd kv) \<Longrightarrow> notObject (get d k)"
  by (auto simp: get_def notObject_def split: option.splits dest!: map_of_SomeD)

lemma decoded_notObject:
  assumes "rowHandler row = Some r"
  shows "notObject (get r k)"
proof -
  from assms have r: "r = cleanUp (gameDocOfRow row)"
    by (simp add: rowHandler_def Let_def split: if_splits)
  have "\<forall>kv\<in>set (cleanUp (gameDocOfRow row)). notObject (snd kv)"
    using values_gameDocOfRow [of row] by (simp add: cleanUp_def)
  then show ?thesis unfolding r by (rule notObject_get)
qed

lemma newGames_analyzeLoop:
  "newGames (analyzeLoop recs m acc) = newGames acc @ filter (isNew m) recs"
  by (induction recs arbitrary: acc) (auto simp: isNew_def split: option.splits)

lemma updatedGames_analyzeLoop:
  "updatedGames (analyzeLoop recs m acc) = updatedGames acc @ filter (isChanged m) recs"
  by (induction recs arbitrary: acc) (auto simp: isChanged_def split: option.splits)

lemma unchangedCount_analyzeLoop:
  "unchangedCount (analyzeLoop recs m acc) = unchangedCount acc + length (filter (isUnchanged m) recs)"
  by (induction recs arbitrary: acc) (auto simp: isUnchanged_def split: option.splits)

lemma newGames_analyzeChanges: "newGames (analyzeChanges recs m) = filter (isNew m) recs"
  by (simp add: analyzeChanges_def newGames_analyzeLoop)

lemma updatedGames_analyzeChanges: "updatedGames (analyzeChanges recs m) = filter (isChanged m) recs"
  by (simp add: analyzeChanges_def updatedGames_analyzeLoop)

lemma unchangedCount_analyzeChanges:
  "unchangedCount (analyzeChanges recs m) = length (filter (isUnchanged m) recs)"
  by (simp add: analyzeChanges_def unchangedCount_analyzeLoop)

lemma three_way_count:
  "length (filter (isNew m) recs) + length (filter (isChanged m) recs)
     + length (filter (isUnchanged m) recs) = length recs"
  by (induction recs) (auto simp: isNew_def isChanged_def isUnchanged_def split: option.splits)

lemma hasGameDataChanged_iff:
  "hasGameDataChanged r ex = (\<exists>f\<in>set fieldsToCompare. valuesDiffer (get r f) (get ex f))"
  unfolding hasGameDataChanged_def
  by (subst compareFields_iff) (simp only: compareFields_single)

lemma all_match_unchanged:
  assumes "\<forall>f\<in>set fieldsToCompare. notObject (get r f)"
    and "\<forall>f\<in>set fieldsToCompare. matchesWithinTolerance (get r f) (get ex f)"
  shows "\<not> hasGameDataChanged r ex"
  using assms matches_not_differ
  by (auto simp: hasGameDataChanged_iff)

lemma some_differ_changed:
  assumes "\<exists>f\<in>set fieldsToCompare. differsBeyondTolerance (get r f) (get ex f)"
  shows "hasGameDataChanged r ex"
  using assms differs_valuesDiffer by (auto simp: hasGameDataChanged_iff)

text \<open>
  Claim C1, as amended. Take records whose compared fields hold no objects, as every
  record the decoder yields does (\<open>decoded_notObject\<close>), and any snapshot of the store.
  A record whose id has no match in the snapshot is classified New. A record whose id has
  a match is classified Unchanged (neither New nor Changed) if every compared field holds
  the same value in both or two numbers whose difference, computed in double arithmetic,
  is at most the double \<open>0.001\<close>; it is classified Changed if some compared field holds
  two numbers whose computed difference exceeds the double \<open>0.001\<close>, or two different
  values that are not both numbers. The count of Unchanged records is the number of
  records in neither list, and the three classes together account for every record. Two
  numbers that are within one thousandth of each other always match: their computed
  difference is at most the double \<open>0.001\<close>.
\<close>

theorem differ_classification:
  assumes decoded: "\<forall>r\<in>set newRecords. \<forall>f\<in>set fieldsToCompare. notObject (get r f)"
    and ca: "ca = analyzeChanges newRecords m"
  shows
    "(\<forall>r\<in>set newRecords.
        (case map_of m (get r ''id'') of
           None \<Rightarrow> r \<in> set (newGames ca) \<and> r \<notin> set (updatedGames ca)
         | Some ex \<Rightarrow>
             r \<notin> set (newGames ca)
             \<and> ((\<forall>f\<in>set fieldsToCompare. matchesWithinTolerance (get r f) (get ex f))
                  \<longrightarrow> r \<notin> set (updatedGames ca))
             \<and> ((\<exists>f\<in>set fieldsToCompare. differsBeyondTolerance (get r f) (get ex f))
                  \<longrightarrow> r \<in> set (updatedGames ca))))
     \<and> unchangedCount ca
         = length (filter (\<lambda>r. r \<notin> set (newGames ca) \<and> r \<notin> set (updatedGames ca)) newRecords)
     \<and> length (newGames ca) + length (updatedGames ca) + unchangedCount ca = length newRecords
     \<and> (\<forall>x y. \<bar>x - y\<bar> \<le> 1 / 1000
            \<longrightarrow> matchesWithinTolerance (JNum (Fin x)) (JNum (Fin y)))"
proof -
  have n: "newGames ca = filter (isNew m) newRecords"
    and u: "updatedGames ca = filter (isChanged m) newRecords"
    and c: "unchangedCount ca = length (filter (isUnchanged m) newRecords)"
    unfolding ca
    by (rule newGames_analyzeChanges updatedGames_analyzeChanges unchangedCount_analyzeChanges)+
  have each: "case map_of m (get r ''id'') of
           None \<Rightarrow> r \<in> set (newGames ca) \<and> r \<notin> set (updatedGames ca)
         | Some ex \<Rightarrow>
             r \<notin> set (newGames ca)
             \<and> ((\<forall>f\<in>set fieldsToCompare. matchesWithinTolerance (get r f) (get ex f))
                  \<longrightarrow> r \<notin> set (updatedGames ca))
             \<and> ((\<exists>f\<in>set fieldsToCompare. differsBeyondTolerance (get r f) (get ex f))
                  \<longrightarrow> r \<in> set (updatedGames ca))"
    if r: "r \<in> set newRecords" for r
  proof (cases "map_of m (get r ''id'')")
    case None
    with r show ?thesis by (simp add: n u isNew_def isChanged_def)
  next
    case (Some ex)
    from decoded r have prim: "\<forall>f\<in>set fieldsToCompare. notObject (get r f)" by blast
    have a: "(\<forall>f\<in>set fieldsToCompare. matchesWithinTolerance (get r f) (get ex f))
             \<longrightarrow> \<not> hasGameDataChanged r ex"
      using all_match_unchanged [OF prim] by blast
    have b: "(\<exists>f\<in>set fieldsToCompare. differsBeyondTolerance (get r f) (get ex f))
             \<longrightarrow> hasGameDataChanged r ex"
      using some_differ_changed by blast
    from Some r a b show ?thesis by (simp add: n u isNew_def isChanged_def)
  qed
  have "filter (\<lambda>r. r \<notin> set (newGames ca) \<and> r \<notin> set (updatedGames ca)) newRecords
        = filter (isUnchanged m) newRecords"
    by (rule filter_cong) (auto simp: n u isNew_def isChanged_def isUnchanged_def split: option.splits)
  then have cnt: "unchangedCount ca
         = length (filter (\<lambda>r. r \<notin> set (newGames ca) \<and> r \<notin> set (updatedGames ca)) newRecords)"
    by (simp add: c)
  have tot: "length (newGames ca) + length (updatedGames ca) + unchangedCount ca = length newRecords"
    by (simp add: n u c three_way_count)
  from each cnt tot within_thousandth_matches show ?thesis by blast
qed


lemma collectRecords_decoded: "\<forall>r\<in>set (collectRecords rows). \<exists>row. rowHandler row = Some r"
  by (auto simp: collectRecords_def List.map_filter_def)

lemma exampleRows_decoded: "collectRecords exampleRows = [decodedAnt, decodedZed, decodedBee]"
  by code_simp



text \<open>
  The classification on the example: the double read from \<open>7.5004\<close> is within the
  tolerance of the stored \<open>7.5\<close>, Zed is new, and the rank of Bee has changed.
\<close>

theorem differ_classification_witness:
  "collectRecords exampleRows = [decodedAnt, decodedZed, decodedBee]
   \<and> decodedAnt \<notin> set (newGames (analyzeChanges (collectRecords exampleRows) (buildExistingGamesMap exampleStored)))
   \<and> decodedAnt \<notin> set (updatedGames (analyzeChanges (collectRecords exampleRows) (buildExistingGamesMap exampleStored)))
   \<and> decodedZed \<in> set (newGames (analyzeChanges (collectRecords exampleRows) (buildExistingGamesMap exampleStored)))
   \<and> decodedBee \<in> set (updatedGames (analyzeChanges (collectRecords exampleRows) (buildExistingGamesMap exampleStored)))"
proof -
  let ?m = "buildExistingGamesMap exampleStored"
  let ?ca = "analyzeChanges (collectRecords exampleRows) ?m"
  have prim: "\<forall>r\<in>set (collectRecords exampleRows). \<forall>f\<in>set fieldsToCompare. notObject (get r f)"
    using collectRecords_decoded decoded_notObject by blast
  note T = differ_classification [OF prim refl, of ?m]
  have ant: "map_of ?m (get decodedAnt ''id'') = Some (exampleStored ! 0)"
    by code_simp
  have antm: "\<forall>f\<in>set fieldsToCompare. matchesWithinTolerance (get decodedAnt f) (get (exampleStored ! 0) f)"
    by code_simp
  have zed: "map_of ?m (get decodedZed ''id'') = None"
    by code_simp
  have bee: "map_of ?m (get decodedBee ''id'') = Some (exampleStored ! 1)"
    by code_simp
  have beem: "\<exists>f\<in>set fieldsToCompare. differsBeyondTolerance (get decodedBee f) (get (exampleStored ! 1) f)"
    by code_simp
  have mem: "decodedAnt \<in> set (collectRecords exampleRows)"
    "decodedZed \<in> set (collectRecords exampleRows)"
    "decodedBee \<in> set (collectRecords exampleRows)"
    by (simp_all add: exampleRows_decoded)
  from T mem(1) ant antm have a: "decodedAnt \<notin> set (newGames ?ca) \<and> decodedAnt \<notin> set (updatedGames ?ca)"
    by fastforce
  from T mem(2) zed have z: "decodedZed \<in> set (newGames ?ca)"
    by fastforce
  from T mem(3) bee beem have b: "decodedBee \<in> set (updatedGames ?ca)"
    by fastforce
  from a z b exampleRows_decoded show ?thesis by blast
qed

text \<open>
  Claim C1 as stated fails. The file has \<open>0.003\<close> where the store has the double read
  from \<open>0.002\<close> by an earlier run. The two doubles differ by more than one thousandth,
  yet their difference computed in double arithmetic is the double \<open>0.001\<close> itself, which
  is not greater than the tolerance: the record is classified Unchanged.
\<close>

theorem rounded_difference_unchanged:
  "rowHandler [(''id'', ''1''), (''name'', ''Ant''), (''bayesaverage'', ''0.003'')]
     = Some roundingDecoded
   \<and> get roundingDecoded ''bayes_average''
       = JNum (Fin (3458764513820541 / 1152921504606846976))
   \<and> parseFloat (Some ''0.002'') = Fin (1152921504606847 / 576460752303423488)
   \<and> get roundingStored ''bayes_average'' = JNum (Fin (1152921504606847 / 576460752303423488))
   \<and> \<bar>3458764513820541 / 1152921504606846976 - 1152921504606847 / 576460752303423488\<bar>
       > (1 / 1000 :: rat)
   \<and> map_of (buildExistingGamesMap [roundingStored]) (get roundingDecoded ''id'')
       = Some roundingStored
   \<and> newGames (analyzeChanges [roundingDecoded] (buildExistingGamesMap [roundingStored])) = []
   \<and> updatedGames (analyzeChanges [roundingDecoded] (buildExistingGamesMap [roundingStored])) = []
   \<and> unchangedCount (analyzeChanges [roundingDecoded] (buildExistingGamesMap [roundingStored])) = 1"
  by code_simp

text \<open>
  The other way round, the file's \<open>7.501\<close> against the stored \<open>7.5\<close>: the decimals are
  one thousandth apart, the double read from \<open>7.501\<close> is a little more than that above
  \<open>7.5\<close>, and the record is classified Changed.
\<close>

lemma decimal_at_tolerance_changed:
  "parseFloat (Some ''7.501'') = Fin (8445375201226523 / 1125899906842624)
   \<and> hasGameDataChanged
        [(''id'', JNum (Fin 1)), (''name'', JStr ''Ant''), (''bayes_average'', JNum (parseFloat (Some ''7.501'')))]
        [(''id'', JNum (Fin 1)), (''name'', JStr ''Ant''), (''bayes_average'', JNum (Fin (15 / 2)))]"
  by code_simp

subsection \<open>The sort\<close>

lemma mset_insertSorted: "mset (insertSorted cmp x ys) = add_mset x (mset ys)"
  by (induction ys) auto

lemma mset_jsSort: "mset (jsSort cmp xs) = mset xs"
  by (induction xs) (auto simp: jsSort_def mset_insertSorted)

lemma set_insertSorted: "set (insertSorted cmp x ys) = insert x (set ys)"
  by (induction ys) auto

lemma length_jsSort: "length (jsSort cmp xs) = length xs"
  using mset_jsSort [of cmp xs] by (metis size_mset)

lemma consistent_total: "consistentCompare cmp \<Longrightarrow> \<not> cmp x y \<le> 0 \<Longrightarrow> cmp y x \<le> 0"
  unfolding consistentCompare_def by (metis less_le_not_le linorder_not_le)

lemma consistent_trans:
  "consistentCompare cmp \<Longrightarrow> cmp x y \<le> 0 \<Longrightarrow> cmp y z \<le> 0 \<Longrightarrow> cmp x z \<le> 0"
  unfolding consistentCompare_def by blast

lemma consistent_sym: "consistentCompare cmp \<Longrightarrow> cmp x y = 0 \<Longrightarrow> cmp y x = 0"
  unfolding consistentCompare_def by (metis less_irrefl linorder_neqE_linordered_idom)

lemma sorted_insertSorted:
  assumes "consistentCompare cmp"
  shows "sorted_wrt (\<lambda>a b. cmp a b \<le> 0) ys
         \<Longrightarrow> sorted_wrt (\<lambda>a b. cmp a b \<le> 0) (insertSorted cmp x ys)"
proof (induction ys)
  case Nil
  show ?case by simp
next
  case (Cons y ys)
  show ?case
  proof (cases "cmp x y \<le> 0")
    case True
    with Cons.prems consistent_trans [OF assms, of x y] show ?thesis by auto
  next
    case False
    with Cons consistent_total [OF assms False] show ?thesis
      by (auto simp: set_insertSorted)
  qed
qed

lemma sorted_jsSort:
  "consistentCompare cmp \<Longrightarrow> sorted_wrt (\<lambda>a b. cmp a b \<le> 0) (jsSort cmp xs)"
  by (induction xs) (auto simp: jsSort_def sorted_insertSorted)

lemma filter_insertSorted_other:
  "\<not> P x \<Longrightarrow> filter P (insertSorted cmp x ys) = filter P ys"
  by (induction ys) auto

lemma filter_insertSorted_tie:
  assumes c: "consistentCompare cmp" and k: "cmp k x = 0"
  shows "filter (\<lambda>y. cmp k y = 0) (insertSorted cmp x ys) = x # filter (\<lambda>y. cmp k y = 0) ys"
proof (induction ys)
  case Nil
  with k show ?case by simp
next
  case (Cons y ys)
  show ?case
  proof (cases "cmp x y \<le> 0")
    case True
    with k show ?thesis by simp
  next
    case False
    have "cmp k y \<noteq> 0"
    proof
      assume ky: "cmp k y = 0"
      have "cmp x k \<le> 0" using consistent_sym [OF c k] by simp
      with ky consistent_trans [OF c, of x k y] have "cmp x y \<le> 0" by simp
      with False show False by simp
    qed
    with False Cons show ?thesis by simp
  qed
qed

lemma stable_jsSort:
  assumes "consistentCompare cmp"
  shows "filter (\<lambda>y. cmp k y = 0) (jsSort cmp xs) = filter (\<lambda>y. cmp k y = 0) xs"
proof (induction xs)
  case Nil
  show ?case by (simp add: jsSort_def)
next
  case (Cons x xs)
  have unfold: "jsSort cmp (x # xs) = insertSorted cmp x (jsSort cmp xs)"
    by (simp add: jsSort_def)
  show ?case
  proof (cases "cmp k x = 0")
    case True
    with Cons filter_insertSorted_tie [OF assms True] show ?thesis by (simp add: unfold)
  next
    case False
    with Cons show ?thesis by (simp add: unfold filter_insertSorted_other)
  qed
qed

lemma consistent_byName:
  "consistentCompare (localeCompare e) \<Longrightarrow> consistentCompare (byName e)"
  unfolding consistentCompare_def byName_def by blast

lemma consistent_asciiCompare: "consistentCompare asciiCompare"
  unfolding consistentCompare_def asciiCompare_def by auto

text \<open>
  Claim C8, as amended. With a consistent collator, the records handed to the batch
  writer are the New and the Changed records, sorted by name under the collator, with
  ties between equal names in the order of the list the sort is given: the New records
  before the Changed ones, and the order of the file within each of the two.
\<close>

theorem gamesToProcess_stable_sort:
  assumes "consistentCompare (localeCompare e)"
  shows "sorted_wrt (\<lambda>a b. byName e a b \<le> 0) (gamesToProcess e ca)
         \<and> mset (gamesToProcess e ca) = mset (newGames ca @ updatedGames ca)
         \<and> filter (\<lambda>d. byName e k d = 0) (gamesToProcess e ca)
             = filter (\<lambda>d. byName e k d = 0) (newGames ca @ updatedGames ca)"
  unfolding gamesToProcess_def
  using sorted_jsSort [OF consistent_byName [OF assms]]
        stable_jsSort [OF consistent_byName [OF assms]]
  by (simp add: mset_jsSort)

text \<open>
  Claim C8 as stated fails: of two rows with the same name, the changed game comes first
  in the file and second in the sorted list.
\<close>

theorem ties_not_in_file_order:
  "collectRecords tieRows = [catan1, catan2]
   \<and> nameOf catan1 = nameOf catan2
   \<and> gamesToProcess exampleEnv
        (analyzeChanges (collectRecords tieRows) (buildExistingGamesMap tieStored))
      = [catan2, catan1]"
  by code_simp

text \<open>
  The sort under the example collator: the two games named Catan keep the order New,
  Changed.
\<close>

theorem gamesToProcess_stable_sort_witness:
  "consistentCompare (localeCompare exampleEnv)
   \<and> sorted_wrt (\<lambda>a b. byName exampleEnv a b \<le> 0)
        (gamesToProcess exampleEnv \<lparr>newGames = [decodedZed, catan2], updatedGames = [catan1, decodedBee], unchangedCount = 0\<rparr>)
   \<and> filter (\<lambda>d. byName exampleEnv catan1 d = 0)
        (gamesToProcess exampleEnv \<lparr>newGames = [decodedZed, catan2], updatedGames = [catan1, decodedBee], unchangedCount = 0\<rparr>)
      = [catan2, catan1]"
proof -
  have c: "consistentCompare (localeCompare exampleEnv)"
    by (simp add: exampleEnv_def consistent_asciiCompare)
  have f: "filter (\<lambda>d. byName exampleEnv catan1 d = 0) ([decodedZed, catan2] @ [catan1, decodedBee])
           = [catan2, catan1]"
    by code_simp
  from gamesToProcess_stable_sort [OF c,
      of "\<lparr>newGames = [decodedZed, catan2], updatedGames = [catan1, decodedBee], unchangedCount = 0\<rparr>" catan1]
    c f
  show ?thesis by simp
qed

subsection \<open>The upserts\<close>
















text \<open>
  The same on a whole run over the example: after the run the games collection holds Ant,
  unchanged and with its timestamps untouched, Bee, changed, with its old
  \<open>date_created\<close> and the run's \<open>date_updated\<close>, and Zed, new, with both timestamps
  equal to the run's.
\<close>

lemma example_run_timestamps:
  "map (\<lambda>d. (get d ''name'', get d ''date_created'', get d ''date_updated''))
     (docsOf (snd (processCsvFile exampleEnv ''/data/boardgames_ranks.csv'' (Ends exampleRows)
                     (storeWith exampleStored exampleSearch []))) ''board_games'')
   = [(JStr ''Ant'', JDate 40, JDate 50), (JStr ''Bee'', JDate 40, JDate 100),
      (JStr ''Zed'', JDate 100, JDate 100)]"
  by code_simp

subsection \<open>The file name guard\<close>

text \<open>
  Claim C10. For every path whose base file name does not contain
  \<open>boardgames_ranks\<close>, \<open>processCsvFile\<close> fails with an error and returns the state
  it was given: no call to the store has been made, the file has not been read, and both
  collections are as they were.
\<close>

theorem filename_guard:
  "\<not> includesStr (basename csvPath) ''boardgames_ranks''
   \<Longrightarrow> processCsvFile e csvPath input st = (Inl UnsupportedFile, st)"
  by (simp add: processCsvFile_def)

text \<open>
  The guard at a path whose directory, but not its base name, contains the substring.
\<close>

theorem filename_guard_witness:
  "\<not> includesStr (basename ''/data/boardgames_ranks/games.csv'') ''boardgames_ranks''
   \<and> processCsvFile exampleEnv ''/data/boardgames_ranks/games.csv''
         (Ends [[(''id'', ''1''), (''name'', ''Ant'')]]) (storeWith [] [] [])
       = (Inl UnsupportedFile, storeWith [] [] [])"
proof -
  have h: "\<not> includesStr (basename ''/data/boardgames_ranks/games.csv'') ''boardgames_ranks''"
    by (simp add: basename_def)
  from filename_guard [OF h] h show ?thesis by blast
qed

subsection \<open>Calls to the store\<close>

lemma perform_frame:
  "perform c st = (out, st1) \<Longrightarrow> collections st1 = collections st \<and> nextOid st1 = nextOid st"
  by (auto simp: perform_def)

lemma andThen_Inr:
  assumes "andThen m f st = (Inr x, st')"
  obtains y st1 where "m st = (Inr y, st1)" and "f y st1 = (Inr x, st')"
  using assms by (auto simp: andThen_def split: prod.splits sum.splits)

lemma simpleCall_Inr:
  "simpleCall c st = (Inr u, st1) \<Longrightarrow> collections st1 = collections st"
  by (auto simp: simpleCall_def split: prod.splits outcome.splits dest: perform_frame)

lemma find_Inr:
  "find name st = (Inr ds, st1) \<Longrightarrow> ds = docsOf st name \<and> collections st1 = collections st"
  by (auto simp: find_def docsOf_def split: prod.splits outcome.splits dest: perform_frame)

lemma readStream_Inr:
  "readStream p input st = (Inr rows, st1) \<Longrightarrow> input = Ends rows \<and> collections st1 = collections st"
  by (auto simp: readStream_def split: csvStream.splits)

lemma docsOf_cong: "collections st1 = collections st \<Longrightarrow> docsOf st1 name = docsOf st name"
  by (simp add: docsOf_def)

subsection \<open>The batch loop and the result\<close>

lemma batchLoop_count:
  "batchLoop e gs gamesBatch searchBatch totalProcessed st
     = (Inr (gamesBatch', searchBatch', totalProcessed'), st')
   \<Longrightarrow> totalProcessed' + length gamesBatch' = totalProcessed + length gamesBatch + length gs"
proof (induction gs arbitrary: gamesBatch searchBatch totalProcessed st)
  case Nil
  then show ?case by simp
next
  case (Cons g gs)
  let ?gb = "gamesBatch @ [gameUpsert (currentTimestamp e) g]"
  let ?sb = "searchBatch @ [searchUpsert (currentTimestamp e) g]"
  show ?case
  proof (cases "length ?gb \<ge> batchSize e")
    case False
    with Cons.prems have "batchLoop e gs ?gb ?sb totalProcessed st
        = (Inr (gamesBatch', searchBatch', totalProcessed'), st')"
      by (simp add: Let_def)
    from Cons.IH [OF this] show ?thesis by simp
  next
    case True
    from Cons.prems True obtain st1 where
      "batchLoop e gs [] [] (totalProcessed + length ?gb) st1
        = (Inr (gamesBatch', searchBatch', totalProcessed'), st')"
      by (auto simp: Let_def split: prod.splits sum.splits)
    from Cons.IH [OF this] show ?thesis by simp
  qed
qed

lemma writeRemaining_count:
  "writeRemaining e gamesBatch searchBatch totalProcessed st = (Inr n, st')
   \<Longrightarrow> n = totalProcessed + length gamesBatch"
  by (auto simp: writeRemaining_def returns_def andThen_def split: if_splits prod.splits sum.splits)

lemma resortCollection_returns:
  "fst (resortCollection e coll collectionName now st) = Inr ()"
  by (simp add: resortCollection_def tryCatch_def returns_def split: prod.splits sum.splits)

lemma onEnd_result:
  assumes run: "onEnd e allRecords checked st = (Inr res, st')"
    and ca: "ca = analyzeChanges allRecords (buildExistingGamesMap (docsOf st (gamesName e)))"
  shows "if newGames ca = [] \<and> updatedGames ca = [] then res = noChangesResult
         else res = successResult (length (newGames ca) + length (updatedGames ca)) ca"
proof -
  from run obtain existingGames st1 where
    f: "find (gamesName e) st = (Inr existingGames, st1)"
    and rest: "(let existingGamesMap = buildExistingGamesMap existingGames;
            changesAnalysis = analyzeChanges allRecords existingGamesMap;
            hasChanges = (length (newGames changesAnalysis) > 0
                          \<or> length (updatedGames changesAnalysis) > 0)
        in if \<not> hasChanges then returns noChangesResult
           else
             andThen (batchLoop e (gamesToProcess e changesAnalysis) [] [] 0)
               (\<lambda>(gamesBatch, searchBatch, totalProcessed).
             andThen (writeRemaining e gamesBatch searchBatch totalProcessed)
               (\<lambda>totalProcessed.
             andThen (resortCollection e (gamesName e) ''board_games'' (dateNowGames e)) (\<lambda>u.
             andThen (resortCollection e (searchName e) ''games_search'' (dateNowSearch e)) (\<lambda>u.
             returns (successResult totalProcessed changesAnalysis)))))) st1 = (Inr res, st')"
    unfolding onEnd_def by (rule andThen_Inr)
  from find_Inr [OF f] have ex: "existingGames = docsOf st (gamesName e)" by simp
  show ?thesis
  proof (cases "newGames ca = [] \<and> updatedGames ca = []")
    case True
    with rest show ?thesis by (simp add: ex ca [symmetric] returns_def)
  next
    case False
    with rest have
      "andThen (batchLoop e (gamesToProcess e ca) [] [] 0)
               (\<lambda>(gamesBatch, searchBatch, totalProcessed).
             andThen (writeRemaining e gamesBatch searchBatch totalProcessed)
               (\<lambda>totalProcessed.
             andThen (resortCollection e (gamesName e) ''board_games'' (dateNowGames e)) (\<lambda>u.
             andThen (resortCollection e (searchName e) ''games_search'' (dateNowSearch e)) (\<lambda>u.
             returns (successResult totalProcessed ca))))) st1 = (Inr res, st')"
      by (auto simp: ex ca [symmetric] Let_def)
    then obtain b st2 where
      bl: "batchLoop e (gamesToProcess e ca) [] [] 0 st1 = (Inr b, st2)"
      and r2: "(case b of (gamesBatch, searchBatch, totalProcessed) \<Rightarrow>
             andThen (writeRemaining e gamesBatch searchBatch totalProcessed)
               (\<lambda>totalProcessed.
             andThen (resortCollection e (gamesName e) ''board_games'' (dateNowGames e)) (\<lambda>u.
             andThen (resortCollection e (searchName e) ''games_search'' (dateNowSearch e)) (\<lambda>u.
             returns (successResult totalProcessed ca))))) st2 = (Inr res, st')"
      by (rule andThen_Inr)
    obtain gb sb tp where b: "b = (gb, sb, tp)" by (cases b) auto
    from r2 obtain n st3 where
      wr: "writeRemaining e gb sb tp st2 = (Inr n, st3)"
      and r3: "andThen (resortCollection e (gamesName e) ''board_games'' (dateNowGames e)) (\<lambda>u.
             andThen (resortCollection e (searchName e) ''games_search'' (dateNowSearch e)) (\<lambda>u.
             returns (successResult n ca))) st3 = (Inr res, st')"
      unfolding b by (auto elim: andThen_Inr)
    from r3 have res: "res = successResult n ca"
      by (auto simp: returns_def elim!: andThen_Inr)
    from batchLoop_count [OF bl [unfolded b]] have "tp + length gb = length (gamesToProcess e ca)"
      by simp
    with writeRemaining_count [OF wr] have "n = length (newGames ca) + length (updatedGames ca)"
      by (simp add: gamesToProcess_def length_jsSort)
    with res False show ?thesis by auto
  qed
qed

text \<open>
  Claim C9, as amended. Every successful run returns one of two results. When the diff
  has no New and no Changed record, the result has \<open>totalProcessed\<close>,
  \<open>newGamesCount\<close> and \<open>updatedGamesCount\<close>, all 0, and \<open>noChanges = true\<close>.
  Otherwise it has exactly \<open>totalProcessed\<close>, the number of records written (New plus
  Changed), \<open>newGamesCount\<close> and \<open>updatedGamesCount\<close>, and no \<open>noChanges\<close> field. No
  result carries the number of rows scanned or the number of unchanged records.
\<close>

theorem run_result_shape:
  assumes run: "processCsvFile e csvPath input st = (Inr res, st')"
  shows "\<exists>rows. input = Ends rows \<and>
     (let ca = analyzeChanges (collectRecords rows)
                 (buildExistingGamesMap (docsOf st (gamesName e)))
      in if newGames ca = [] \<and> updatedGames ca = []
         then res = [(''totalProcessed'', jsNat 0), (''newGamesCount'', jsNat 0),
                     (''updatedGamesCount'', jsNat 0), (''noChanges'', JBool True)]
         else res = [(''totalProcessed'', jsNat (length (newGames ca) + length (updatedGames ca))),
                     (''newGamesCount'', jsNat (length (newGames ca))),
                     (''updatedGamesCount'', jsNat (length (updatedGames ca)))])"
proof -
  from run have guard: "includesStr (basename csvPath) ''boardgames_ranks''"
    by (auto simp: processCsvFile_def Let_def split: if_splits)
  with run have
    "andThen createIndexes (\<lambda>u.
     andThen (getCollection (gamesName e)) (\<lambda>u.
     andThen (getCollection (searchName e)) (\<lambda>u.
     andThen (readStream csvPath input) (\<lambda>rows.
     onEnd e (collectRecords rows) (length rows))))) st = (Inr res, st')"
    by (simp add: processCsvFile_def Let_def)
  then obtain st1 st2 st3 st4 rows where
    c1: "createIndexes st = (Inr (), st1)"
    and c2: "getCollection (gamesName e) st1 = (Inr (), st2)"
    and c3: "getCollection (searchName e) st2 = (Inr (), st3)"
    and c4: "readStream csvPath input st3 = (Inr rows, st4)"
    and c5: "onEnd e (collectRecords rows) (length rows) st4 = (Inr res, st')"
    by (auto elim!: andThen_Inr)
  have "collections st4 = collections st"
    using simpleCall_Inr [OF c1 [unfolded createIndexes_def]]
      simpleCall_Inr [OF c2 [unfolded getCollection_def]]
      simpleCall_Inr [OF c3 [unfolded getCollection_def]]
      readStream_Inr [OF c4]
    by simp
  then have d: "docsOf st4 (gamesName e) = docsOf st (gamesName e)" by (rule docsOf_cong)
  from onEnd_result [OF c5 refl] readStream_Inr [OF c4] show ?thesis
    by (auto simp: d Let_def noChangesResult_def successResult_def)
qed


text \<open>
  The result of the run on the example: three rows scanned, one unchanged, two written.
\<close>

theorem run_result_shape_witness:
  "fst (processCsvFile exampleEnv ''/data/boardgames_ranks.csv'' (Ends exampleRows)
          (storeWith exampleStored exampleSearch []))
     = Inr [(''totalProcessed'', JNum (Fin 2)), (''newGamesCount'', JNum (Fin 1)),
            (''updatedGamesCount'', JNum (Fin 1))]
   \<and> (\<exists>rows. Ends exampleRows = Ends rows \<and>
     (let ca = analyzeChanges (collectRecords rows)
                 (buildExistingGamesMap
                    (docsOf (storeWith exampleStored exampleSearch []) (gamesName exampleEnv)))
      in if newGames ca = [] \<and> updatedGames ca = []
         then [(''totalProcessed'', JNum (Fin 2)), (''newGamesCount'', JNum (Fin 1)),
               (''updatedGamesCount'', JNum (Fin 1))]
              = [(''totalProcessed'', jsNat 0), (''newGamesCount'', jsNat 0),
                 (''updatedGamesCount'', jsNat 0), (''noChanges'', JBool True)]
         else [(''totalProcessed'', JNum (Fin 2)), (''newGamesCount'', JNum (Fin 1)),
               (''updatedGamesCount'', JNum (Fin 1))]
              = [(''totalProcessed'', jsNat (length (newGames ca) + length (updatedGames ca))),
                 (''newGamesCount'', jsNat (length (newGames ca))),
                 (''updatedGamesCount'', jsNat (length (updatedGames ca)))]))"
proof -
  let ?run = "processCsvFile exampleEnv ''/data/boardgames_ranks.csv'' (Ends exampleRows)
          (storeWith exampleStored exampleSearch [])"
  have r: "fst ?run = Inr [(''totalProcessed'', JNum (Fin 2)), (''newGamesCount'', JNum (Fin 1)),
            (''updatedGamesCount'', JNum (Fin 1))]"
    by code_simp
  then have "?run = (Inr [(''totalProcessed'', JNum (Fin 2)), (''newGamesCount'', JNum (Fin 1)),
            (''updatedGamesCount'', JNum (Fin 1))], snd ?run)"
    by (metis prod.collapse)
  from run_result_shape [OF this] r show ?thesis by blast
qed

text \<open>
  Claim C9 as stated fails: the result of a run with changes has no \<open>noChanges\<close> flag
  and no count of unchanged records, and its \<open>totalProcessed\<close> is 2 where 3 rows were
  scanned.
\<close>

theorem result_without_unchanged_count:
  "fst (processCsvFile exampleEnv ''/data/boardgames_ranks.csv'' (Ends exampleRows)
          (storeWith exampleStored exampleSearch []))
     = Inr [(''totalProcessed'', JNum (Fin 2)), (''newGamesCount'', JNum (Fin 1)),
            (''updatedGamesCount'', JNum (Fin 1))]
   \<and> length exampleRows = 3
   \<and> unchangedCount (analyzeChanges (collectRecords exampleRows)
         (buildExistingGamesMap exampleStored)) = 1"
  by code_simp


subsection \<open>The short circuit\<close>

lemma succeedsFirst_Suc:
  "succeedsFirst (Suc n) outs \<Longrightarrow>
   (case outs of [] \<Rightarrow> Succeeds | out # rest \<Rightarrow> out) = Succeeds \<and> succeedsFirst n (tl outs)"
  by (cases outs) (auto simp: succeedsFirst_def)

lemma simpleCall_succeeds:
  "succeedsFirst (Suc n) (outcomes st) \<Longrightarrow>
   simpleCall c st = (Inr (), st\<lparr>outcomes := tl (outcomes st), calls := calls st @ [c]\<rparr>)"
  by (simp add: simpleCall_def perform_def succeedsFirst_Suc)

lemma find_succeeds:
  "succeedsFirst (Suc n) (outcomes st) \<Longrightarrow>
   find name st = (Inr (docsOf st name),
                   st\<lparr>outcomes := tl (outcomes st), calls := calls st @ [Find name]\<rparr>)"
  by (simp add: find_def perform_def succeedsFirst_Suc docsOf_def)

lemma docsOf_frame:
  "docsOf (st\<lparr>outcomes := a\<rparr>) name = docsOf st name"
  "docsOf (st\<lparr>calls := b\<rparr>) name = docsOf st name"
  by (simp_all add: docsOf_def)

lemma drop4_tl: "drop 4 xs = tl (tl (tl (tl xs)))"
  by (simp add: eval_nat_numeral drop_Suc)

text \<open>
  Claim C5. When the file name passes the guard, the four calls that precede the diff
  succeed and the diff yields no New and no Changed record, the run returns the result
  with \<open>noChanges = true\<close> and leaves the store as it was: the only calls made are
  \<open>createIndexes\<close>, the two \<open>getCollection\<close>, and the \<open>find\<close> that loads the
  snapshot; there is no bulk write, no insert, no delete and no drop on either collection.
\<close>

theorem no_changes_short_circuit:
  assumes guard: "includesStr (basename csvPath) ''boardgames_ranks''"
    and ok: "succeedsFirst 4 (outcomes st)"
    and ca: "ca = analyzeChanges (collectRecords rows)
                    (buildExistingGamesMap (docsOf st (gamesName e)))"
    and none: "newGames ca = [] \<and> updatedGames ca = []"
  shows "processCsvFile e csvPath (Ends rows) st =
           (Inr noChangesResult,
            st\<lparr>outcomes := drop 4 (outcomes st),
               calls := calls st @ [CreateIndexes, GetCollection (gamesName e),
                                    GetCollection (searchName e), ReadStream csvPath,
                                    Find (gamesName e)]\<rparr>)
         \<and> get noChangesResult ''noChanges'' = JBool True"
proof -
  define st1 where "st1 = st\<lparr>outcomes := tl (outcomes st), calls := calls st @ [CreateIndexes]\<rparr>"
  define st2 where
    "st2 = st1\<lparr>outcomes := tl (outcomes st1), calls := calls st1 @ [GetCollection (gamesName e)]\<rparr>"
  define st3 where
    "st3 = st2\<lparr>outcomes := tl (outcomes st2), calls := calls st2 @ [GetCollection (searchName e)]\<rparr>"
  define st4 where "st4 = st3\<lparr>calls := calls st3 @ [ReadStream csvPath]\<rparr>"
  define st5 where
    "st5 = st4\<lparr>outcomes := tl (outcomes st4), calls := calls st4 @ [Find (gamesName e)]\<rparr>"
  from ok have o0: "succeedsFirst (Suc 3) (outcomes st)" by (simp add: eval_nat_numeral)
  from succeedsFirst_Suc [OF o0] have o1: "succeedsFirst (Suc 2) (outcomes st1)"
    by (simp add: st1_def eval_nat_numeral)
  from succeedsFirst_Suc [OF o1] have o2: "succeedsFirst (Suc 1) (outcomes st2)"
    by (simp add: st2_def eval_nat_numeral)
  from succeedsFirst_Suc [OF o2] have o3: "succeedsFirst (Suc 0) (outcomes st4)"
    by (simp add: st3_def st4_def)
  have c1: "createIndexes st = (Inr (), st1)"
    unfolding createIndexes_def st1_def by (rule simpleCall_succeeds [OF o0])
  have c2: "getCollection (gamesName e) st1 = (Inr (), st2)"
    unfolding getCollection_def st2_def by (rule simpleCall_succeeds [OF o1])
  have c3: "getCollection (searchName e) st2 = (Inr (), st3)"
    unfolding getCollection_def st3_def by (rule simpleCall_succeeds [OF o2])
  have c4: "readStream csvPath (Ends rows) st3 = (Inr rows, st4)"
    by (simp add: readStream_def st4_def)
  have c5: "find (gamesName e) st4 = (Inr (docsOf st4 (gamesName e)), st5)"
    unfolding st5_def by (rule find_succeeds [OF o3])
  have d: "docsOf st4 (gamesName e) = docsOf st (gamesName e)"
    by (simp add: st4_def st3_def st2_def st1_def docsOf_frame)
  have e5: "onEnd e (collectRecords rows) (length rows) st4 = (Inr noChangesResult, st5)"
    unfolding onEnd_def andThen_def c5 d using none
    by (simp add: ca [symmetric] returns_def)
  have run: "processCsvFile e csvPath (Ends rows) st = (Inr noChangesResult, st5)"
    unfolding processCsvFile_def using guard
    by (simp add: andThen_def c1 c2 c3 c4 e5)
  have "st5 = st\<lparr>outcomes := drop 4 (outcomes st),
               calls := calls st @ [CreateIndexes, GetCollection (gamesName e),
                                    GetCollection (searchName e), ReadStream csvPath,
                                    Find (gamesName e)]\<rparr>"
    by (simp add: st5_def st4_def st3_def st2_def st1_def drop4_tl)
  with run show ?thesis by (simp add: noChangesResult_def get_def)
qed

text \<open>
  The run on a file whose only row is the stored Ant, within the tolerance.
\<close>

theorem no_changes_short_circuit_witness:
  "includesStr (basename ''/data/boardgames_ranks.csv'') ''boardgames_ranks''
   \<and> newGames (analyzeChanges (collectRecords [exampleRows ! 0])
                 (buildExistingGamesMap exampleStored)) = []
   \<and> updatedGames (analyzeChanges (collectRecords [exampleRows ! 0])
                 (buildExistingGamesMap exampleStored)) = []
   \<and> processCsvFile exampleEnv ''/data/boardgames_ranks.csv'' (Ends [exampleRows ! 0])
         (storeWith exampleStored exampleSearch [])
       = (Inr noChangesResult,
          (storeWith exampleStored exampleSearch [])
            \<lparr>outcomes := [],
              calls := [CreateIndexes, GetCollection ''board_games'',
                        GetCollection ''games_search'',
                        ReadStream ''/data/boardgames_ranks.csv'', Find ''board_games'']\<rparr>)"
proof -
  let ?st = "storeWith exampleStored exampleSearch []"
  have g: "includesStr (basename ''/data/boardgames_ranks.csv'') ''boardgames_ranks''"
    by code_simp
  have ok: "succeedsFirst 4 (outcomes ?st)"
    by (simp add: storeWith_def succeedsFirst_def)
  have d: "docsOf ?st (gamesName exampleEnv) = exampleStored"
    by (simp add: docsOf_def storeWith_def exampleEnv_def)
  have n: "newGames (analyzeChanges (collectRecords [exampleRows ! 0])
                 (buildExistingGamesMap exampleStored)) = []
           \<and> updatedGames (analyzeChanges (collectRecords [exampleRows ! 0])
                 (buildExistingGamesMap exampleStored)) = []"
    by code_simp
  have n': "newGames (analyzeChanges (collectRecords [exampleRows ! 0])
                 (buildExistingGamesMap (docsOf ?st (gamesName exampleEnv)))) = []
           \<and> updatedGames (analyzeChanges (collectRecords [exampleRows ! 0])
                 (buildExistingGamesMap (docsOf ?st (gamesName exampleEnv)))) = []"
    unfolding d by (rule n)
  have run: "processCsvFile exampleEnv ''/data/boardgames_ranks.csv'' (Ends [exampleRows ! 0]) ?st
       = (Inr noChangesResult,
          ?st\<lparr>outcomes := drop 4 (outcomes ?st),
               calls := calls ?st @ [CreateIndexes, GetCollection (gamesName exampleEnv),
                                    GetCollection (searchName exampleEnv),
                                    ReadStream ''/data/boardgames_ranks.csv'',
                                    Find (gamesName exampleEnv)]\<rparr>)"
    using no_changes_short_circuit [OF g ok refl n'] by blast
  have fin: "?st\<lparr>outcomes := drop 4 (outcomes ?st),
               calls := calls ?st @ [CreateIndexes, GetCollection (gamesName exampleEnv),
                                    GetCollection (searchName exampleEnv),
                                    ReadStream ''/data/boardgames_ranks.csv'',
                                    Find (gamesName exampleEnv)]\<rparr>
             = ?st\<lparr>outcomes := [],
              calls := [CreateIndexes, GetCollection ''board_games'',
                        GetCollection ''games_search'',
                        ReadStream ''/data/boardgames_ranks.csv'', Find ''board_games'']\<rparr>"
    by (simp add: storeWith_def exampleEnv_def)
  from run [unfolded fin] n g show ?thesis by blast
qed

subsection \<open>The reindexer\<close>

text \<open>
  What \<open>resortCollection\<close> does with a failure of any of its steps: the \<open>catch\<close>
  ends it, so that \<open>resortCollection\<close> returns normally from every state and under
  every schedule of failures, and the two reindexings followed by the return of the
  result always yield the success result.
\<close>

lemma reindex_errors_caught:
  "fst (resortCollection e coll collectionName now st) = Inr ()
   \<and> fst (andThen (resortCollection e (gamesName e) ''board_games'' (dateNowGames e)) (\<lambda>u.
           andThen (resortCollection e (searchName e) ''games_search'' (dateNowSearch e)) (\<lambda>u.
           returns result)) st) = Inr result"
proof -
  have one: "\<And>c n t s. \<exists>s'. resortCollection e c n t s = (Inr (), s')"
    using resortCollection_returns by (metis prod.collapse)
  obtain s1 where s1: "resortCollection e (gamesName e) ''board_games'' (dateNowGames e) st = (Inr (), s1)"
    using one by blast
  obtain s2 where s2: "resortCollection e (searchName e) ''games_search'' (dateNowSearch e) s1 = (Inr (), s2)"
    using one by blast
  show ?thesis
    by (simp add: resortCollection_returns andThen_def s1 s2 returns_def)
qed


text \<open>
  Claim C3 on a run whose reindexing fails half way. The writes succeed; in the
  reindexing of the games collection the delete succeeds and the reinsert fails. The
  failure does not reach the caller: the run returns its success result, and the games
  collection, which held two documents before the run, is left empty.
\<close>

theorem reindex_failure_swallowed:
  "fst (processCsvFile exampleEnv ''/data/boardgames_ranks.csv'' (Ends exampleRows)
          (storeWith exampleStored exampleSearch (replicate 12 Succeeds @ [Fails 0])))
     = Inr [(''totalProcessed'', JNum (Fin 2)), (''newGamesCount'', JNum (Fin 1)),
            (''updatedGamesCount'', JNum (Fin 1))]
   \<and> docsOf (snd (processCsvFile exampleEnv ''/data/boardgames_ranks.csv'' (Ends exampleRows)
          (storeWith exampleStored exampleSearch (replicate 12 Succeeds @ [Fails 0]))))
        ''board_games'' = []"
  by code_simp


subsection \<open>The batch writer\<close>

text \<open>
  In the loop, a batch that has reached the batch size and whose submission fails is
  submitted a second time, and a second failure ends the loop with that error.
\<close>

lemma full_batch_retried_once:
  assumes full: "length (gamesBatch @ [gameUpsert (currentTimestamp e) gameDoc]) \<ge> batchSize e"
    and failed: "submitBatch e (gamesBatch @ [gameUpsert (currentTimestamp e) gameDoc])
                   (searchBatch @ [searchUpsert (currentTimestamp e) gameDoc]) st = (Inl error, st1)"
  shows "batchLoop e (gameDoc # rest) gamesBatch searchBatch totalProcessed st =
     (case submitBatch e (gamesBatch @ [gameUpsert (currentTimestamp e) gameDoc])
                   (searchBatch @ [searchUpsert (currentTimestamp e) gameDoc]) st1 of
        (Inr u, st2) \<Rightarrow>
           batchLoop e rest [] []
             (totalProcessed + length (gamesBatch @ [gameUpsert (currentTimestamp e) gameDoc])) st2
      | (Inl retryError, st2) \<Rightarrow> (Inl retryError, st2))"
  using full failed by (simp add: Let_def)

text \<open>
  Claim C4 on the records that remain after the loop. The run writes two records, fewer
  than the batch size, so they are written after the loop; the bulk write fails once and
  every later call would succeed. The run fails with that error and the batch is not
  submitted again: one \<open>ensureConnection\<close> and one bulk write are all the calls made.
\<close>

theorem remaining_batch_not_retried:
  "fst (processCsvFile exampleEnv ''/data/boardgames_ranks.csv'' (Ends exampleRows)
          (storeWith exampleStored exampleSearch (replicate 5 Succeeds @ [Fails 0])))
     = Inl (CallFailed (BulkWrite ''board_games'' 2))
   \<and> calls (snd (processCsvFile exampleEnv ''/data/boardgames_ranks.csv'' (Ends exampleRows)
          (storeWith exampleStored exampleSearch (replicate 5 Succeeds @ [Fails 0]))))
     = [CreateIndexes, GetCollection ''board_games'', GetCollection ''games_search'',
        ReadStream ''/data/boardgames_ranks.csv'', Find ''board_games'',
        EnsureConnection, BulkWrite ''board_games'' 2]
   \<and> outcomes (snd (processCsvFile exampleEnv ''/data/boardgames_ranks.csv'' (Ends exampleRows)
          (storeWith exampleStored exampleSearch (replicate 5 Succeeds @ [Fails 0])))) = []"
  by code_simp

end
